theory Spec2Isabelle
  imports Complex_Main
begin

section \<open>JavaScript numbers\<close>

text \<open>
  Every numeric value of the program is a JavaScript \<^verbatim>\<open>number\<close>.  The development
  reads a number as a real: the arithmetic of the program is the arithmetic of the reals,
  \<^verbatim>\<open>Math.sin\<close> and \<^verbatim>\<open>Math.cos\<close> are \<^term>\<open>sin\<close> and \<^term>\<open>cos\<close>,
  \<^verbatim>\<open>Math.max\<close> and \<^verbatim>\<open>Math.min\<close> are \<^term>\<open>max\<close> and \<^term>\<open>min\<close>.
  \<^verbatim>\<open>Math.round\<close> returns the integer nearest to its argument and rounds a tie
  towards plus infinity, so it is the floor of the argument plus one half, again a number.

  The program computes in IEEE-754 double precision, where every operation rounds its
  result.  Comparisons, \<^verbatim>\<open>Math.max\<close>, \<^verbatim>\<open>Math.min\<close> and \<^verbatim>\<open>Math.round\<close> are exact
  on doubles, so bounds and control flow do not depend on the rounding; the value of a sum
  does.  The raw score is therefore given a second time, in double precision, in its own
  section, and compared there with its reading over the reals.
\<close>

type_synonym number = real

definition Math_round :: "number \<Rightarrow> number" where
  "Math_round x = of_int \<lfloor>x + 1 / 2\<rfloor>"

definition Math_abs :: "number \<Rightarrow> number" where
  "Math_abs x = \<bar>x\<bar>"

section \<open>Detections (WebcamComponent)\<close>

text \<open>
  \<^verbatim>\<open>faceapi.FaceExpressions\<close> is a class of the face-api.js library with seven numeric
  fields, each always present; the defaults of the destructuring patterns
  (\<^verbatim>\<open>happy = 0\<close>) and of \<^verbatim>\<open>detection.expressions.happy || 0\<close> only replace an absent
  field or a zero by zero.  The bounding box of a detection is used for drawing only and
  is left out.
\<close>

record FaceExpressions =
  neutral :: number
  happy :: number
  sad :: number
  angry :: number
  fearful :: number
  disgusted :: number
  surprised :: number

record FaceDetectionResult =
  detection_score :: number
  expressions :: FaceExpressions

record FundabilityAttributes =
  charisma :: number
  dumbness :: number
  single :: number

definition ANALYSIS_DURATION_MS :: number where
  "ANALYSIS_DURATION_MS = 5000"

record feedbackBand =
  minScore :: number
  maxScore :: number
  message :: string

definition feedbackMessages :: "feedbackBand list" where
  "feedbackMessages =
    [\<lparr>minScore = 0, maxScore = 20, message = ''Even your screen protector is crying!''\<rparr>,
     \<lparr>minScore = 21, maxScore = 40, message = ''VCs might fund you... if you wore a paper bag.''\<rparr>,
     \<lparr>minScore = 41, maxScore = 60, message = ''Middle of the pack. Try adding glasses?''\<rparr>,
     \<lparr>minScore = 61, maxScore = 80, message = ''Not bad! You could raise a decent seed round.''\<rparr>,
     \<lparr>minScore = 81, maxScore = 95, message = ''Unicorn material! Silicon Valley is calling!''\<rparr>,
     \<lparr>minScore = 96, maxScore = 100, message = ''Are you Elon Musk's secret twin?!''\<rparr>]"

text \<open>
  \<^verbatim>\<open>calculateRawFundabilityScore\<close> starts with \<^verbatim>\<open>if (!detection) return 0\<close>, so its
  argument is optional.
\<close>

definition calculateRawFundabilityScore :: "FaceDetectionResult option \<Rightarrow> number" where
  "calculateRawFundabilityScore detection =
    (case detection of
       None \<Rightarrow> 0
     | Some d \<Rightarrow>
        (let confidence = detection_score d;
             e = expressions d;
             baseScore = confidence * 50;
             expressionBonus = (happy e * 30) + (neutral e * 15) + (surprised e * 10);
             expressionPenalty = (sad e * 20) + (angry e * 25);
             seedValue = (confidence * 100) + (happy e * 50) + (neutral e * 25);
             deterministicFactor = sin seedValue * 5;
             totalScore = baseScore + expressionBonus - expressionPenalty + deterministicFactor
         in Math_round (max 0 (min 100 totalScore))))"

definition calculateAttributes :: "FaceDetectionResult \<Rightarrow> FundabilityAttributes" where
  "calculateAttributes d =
    (let confidence = detection_score d;
         e = expressions d;
         charismaBase = max 0 (min 100
           (confidence * 40 + happy e * 40 + surprised e * 20 + sin (confidence * 50) * 10));
         dumbBase = max 0 (min 100
           ((1 - neutral e) * 40 + surprised e * 30 + disgusted e * 30 + cos (confidence * 70) * 15));
         singleBase = max 0 (min 100
           (sad e * 30 + neutral e * 25 + angry e * 25 + (1 - happy e) * 20 + sin (confidence * 90) * 10))
     in \<lparr>charisma = Math_round charismaBase,
         dumbness = Math_round dumbBase,
         single = Math_round singleBase\<rparr>)"

definition calculateDeterministicAttributeTargets ::
  "FundabilityAttributes \<Rightarrow> FaceDetectionResult \<Rightarrow> FundabilityAttributes" where
  "calculateDeterministicAttributeTargets initialAttrs d =
    (let confidence = detection_score d;
         h = happy (expressions d);
         charismaShift = sin (confidence * 100 + h * 60) * 15;
         dumbShift = sin (confidence * 120 + h * 40) * 12;
         singleShift = sin (confidence * 140 + h * 20) * 18;
         charismaTarget = max 10 (min 95 (charisma initialAttrs + charismaShift));
         dumbTarget = max 5 (min 90 (dumbness initialAttrs + dumbShift));
         singleTarget = max 15 (min 95 (single initialAttrs + singleShift))
     in \<lparr>charisma = Math_round charismaTarget,
         dumbness = Math_round dumbTarget,
         single = Math_round singleTarget\<rparr>)"

definition interpolateAttributes ::
  "FundabilityAttributes \<Rightarrow> FundabilityAttributes \<Rightarrow> number \<Rightarrow> FundabilityAttributes" where
  "interpolateAttributes initial target progress =
    \<lparr>charisma = Math_round (charisma initial + (charisma target - charisma initial) * progress),
     dumbness = Math_round (dumbness initial + (dumbness target - dumbness initial) * progress),
     single = Math_round (single initial + (single target - single initial) * progress)\<rparr>"

text \<open>
  \<^verbatim>\<open>feedbackMessages.find(...)\<close> returns the first band that holds the score, and
  \<^verbatim>\<open>feedback?.message || "Analyzing..."\<close> falls back when there is none or when its
  message is the empty string.
\<close>

definition getFeedbackMessage :: "number \<Rightarrow> string" where
  "getFeedbackMessage score =
    (case find (\<lambda>fb. score \<ge> minScore fb \<and> score \<le> maxScore fb) feedbackMessages of
       None \<Rightarrow> ''Analyzing...''
     | Some fb \<Rightarrow> (if message fb = [] then ''Analyzing...'' else message fb))"

definition calculateDeterministicTargetScore :: "number \<Rightarrow> FaceDetectionResult \<Rightarrow> number" where
  "calculateDeterministicTargetScore initialScore d =
    (let confidence = detection_score d;
         h = happy (expressions d);
         shiftFactor = sin (confidence * 100 + h * 50) * 15;
         target = initialScore + shiftFactor;
         target = (if Math_abs shiftFactor < 3
                   then target + (if confidence > 0.5 then 5 else - 5)
                   else target)
     in Math_round (max 15 (min 90 target)))"

section \<open>The sampling session (WebcamComponent)\<close>

text \<open>
  The component keeps two values in React state, \<^verbatim>\<open>analysisStartTime\<close> and
  \<^verbatim>\<open>finalScoreCalculated\<close>, and four values in refs.  A ref is a mutable cell shared by
  all renders.  A state value is different: \<^verbatim>\<open>const [analysisStartTime, setAnalysisStartTime]
  = useState(null)\<close> binds, in every render, a fresh constant to the value the state has at
  that render, and \<^verbatim>\<open>setAnalysisStartTime\<close> only asks React for a later render with the
  new value.  A function created during a render therefore reads the constants of that
  render for as long as it lives.

  The record \<open>webcam\<close> holds the state as the setters have left it and the refs; the record
  \<open>render\<close> holds the two constants a render has bound.
\<close>

record webcam =
  analysisStartTime :: "number option"
  finalScoreCalculated :: bool
  initialAnimatedScoreRef :: "number option"
  finalAnimatedTargetScoreRef :: "number option"
  initialAttributesRef :: "FundabilityAttributes option"
  finalAttributesRef :: "FundabilityAttributes option"

record render =
  seen_analysisStartTime :: "number option"
  seen_finalScoreCalculated :: bool

definition render_of :: "webcam \<Rightarrow> render" where
  "render_of s = \<lparr>seen_analysisStartTime = analysisStartTime s,
                  seen_finalScoreCalculated = finalScoreCalculated s\<rparr>"

text \<open>The values of the \<^verbatim>\<open>useState\<close> and \<^verbatim>\<open>useRef\<close> initialisers.\<close>

definition mounted :: webcam where
  "mounted = \<lparr>analysisStartTime = None, finalScoreCalculated = False,
              initialAnimatedScoreRef = None, finalAnimatedTargetScoreRef = None,
              initialAttributesRef = None, finalAttributesRef = None\<rparr>"

text \<open>One call of \<^verbatim>\<open>onScoreUpdate(score, feedback, isFinal, attributes)\<close>.\<close>

record scoreUpdate =
  newScore :: number
  newFeedback :: string
  isFinal :: bool
  newAttributes :: "FundabilityAttributes option"

text \<open>
  What one run of the interval callback finds: the two readings of \<^verbatim>\<open>Date.now()\<close>
  (\<^verbatim>\<open>currentTime\<close> on entry, \<^verbatim>\<open>startTime\<close> inside the initialisation, after the
  \<^verbatim>\<open>await\<close>), whether the video is there and playing, whether the canvas gave a 2d
  context, and the outcome of \<^verbatim>\<open>detectAllFaces(...).withFaceExpressions()\<close>: it throws
  or yields a list.  \<^verbatim>\<open>faceapi.resizeResults\<close> rescales the boxes and keeps length,
  scores and expressions.
\<close>

datatype inference = Throws | Faces "FaceDetectionResult list"

record tick =
  currentTime :: number
  startTime :: number
  videoPlaying :: bool
  context2d :: bool
  detectAllFaces :: inference

text \<open>The block under \<^verbatim>\<open>// Initialize scores and attributes\<close>.\<close>

definition initializeScores :: "tick \<Rightarrow> FaceDetectionResult \<Rightarrow> webcam \<Rightarrow> webcam" where
  "initializeScores t person s =
    (let initialScore = calculateRawFundabilityScore (Some person);
         initialAttrs = calculateAttributes person
     in s\<lparr>analysisStartTime := Some (startTime t),
          initialAnimatedScoreRef := Some initialScore,
          finalAnimatedTargetScoreRef := Some (calculateDeterministicTargetScore initialScore person),
          initialAttributesRef := Some initialAttrs,
          finalAttributesRef := Some (calculateDeterministicAttributeTargets initialAttrs person)\<rparr>)"

text \<open>
  \<^verbatim>\<open>currentTime - (analysisStartTime || currentTime)\<close>: the operator \<^verbatim>\<open>||\<close> takes its
  right operand when the left one is \<^verbatim>\<open>null\<close> or zero.
\<close>

definition timeElapsed :: "render \<Rightarrow> tick \<Rightarrow> number" where
  "timeElapsed r t =
    currentTime t -
      (case seen_analysisStartTime r of
         None \<Rightarrow> currentTime t
       | Some a \<Rightarrow> if a = 0 then currentTime t else a)"

text \<open>The branch \<^verbatim>\<open>timeElapsed >= ANALYSIS_DURATION_MS\<close>.\<close>

definition sendFinal :: "FaceDetectionResult \<Rightarrow> webcam \<Rightarrow> webcam \<times> scoreUpdate list" where
  "sendFinal person s =
    (let finalScore = (case finalAnimatedTargetScoreRef s of
                         Some v \<Rightarrow> v
                       | None \<Rightarrow> calculateRawFundabilityScore (Some person));
         finalAttributes = (case finalAttributesRef s of
                              Some a \<Rightarrow> a
                            | None \<Rightarrow> calculateAttributes person)
     in (s\<lparr>finalScoreCalculated := True\<rparr>,
         [\<lparr>newScore = finalScore, newFeedback = getFeedbackMessage finalScore,
           isFinal = True, newAttributes = Some finalAttributes\<rparr>]))"

text \<open>The \<^verbatim>\<open>else\<close> branch: nothing is sent unless all four refs are set.\<close>

definition sendAnimated :: "number \<Rightarrow> webcam \<Rightarrow> scoreUpdate list" where
  "sendAnimated elapsed s =
    (case (initialAnimatedScoreRef s, finalAnimatedTargetScoreRef s,
           initialAttributesRef s, finalAttributesRef s) of
       (Some i, Some f, Some ia, Some fa) \<Rightarrow>
         (let progress = min 1 (elapsed / ANALYSIS_DURATION_MS);
              animatedScore = i + (f - i) * progress;
              currentDisplayScore = Math_round (max 0 (min 100 animatedScore));
              currentAttributes = interpolateAttributes ia fa progress
          in [\<lparr>newScore = currentDisplayScore,
                newFeedback = getFeedbackMessage currentDisplayScore,
                isFinal = False, newAttributes = Some currentAttributes\<rparr>])
     | _ \<Rightarrow> [])"

text \<open>
  The callback given to \<^verbatim>\<open>setInterval\<close>, created in render \<open>r\<close>.  It returns the state
  and refs it leaves and the calls of \<^verbatim>\<open>onScoreUpdate\<close> it makes.  It returns at once
  when the video is missing, paused or ended.  Everything after that is inside
  \<^verbatim>\<open>try\<close>, and the \<^verbatim>\<open>catch\<close> block is empty: a throwing inference, and the
  \<^verbatim>\<open>TypeError\<close> of \<^verbatim>\<open>context!.font = ...\<close> when there is a face but no 2d context, end
  the run before anything is written.  \<^verbatim>\<open>analysisStartTime\<close> and
  \<^verbatim>\<open>finalScoreCalculated\<close> are read from \<open>r\<close>.
\<close>

definition intervalCallback :: "render \<Rightarrow> tick \<Rightarrow> webcam \<Rightarrow> webcam \<times> scoreUpdate list" where
  "intervalCallback r t s =
    (if \<not> videoPlaying t then (s, [])
     else case detectAllFaces t of
       Throws \<Rightarrow> (s, [])
     | Faces detections \<Rightarrow>
        (case detections of
           [] \<Rightarrow> (s, [])
         | person # others \<Rightarrow>
            if \<not> context2d t then (s, [])
            else if seen_finalScoreCalculated r then (s, [])
            else
              (let s1 = (if seen_analysisStartTime r = None
                         then initializeScores t person s else s)
               in if timeElapsed r t \<ge> ANALYSIS_DURATION_MS
                  then sendFinal person s1
                  else (s1, sendAnimated (timeElapsed r t) s1))))"

text \<open>
  \<^verbatim>\<open>startFaceDetection\<close> clears the state and the refs and installs the interval.  The
  callback it installs is the one of the render that created this \<^verbatim>\<open>startFaceDetection\<close>.
\<close>

definition startFaceDetection :: "webcam \<Rightarrow> webcam" where
  "startFaceDetection s =
    s\<lparr>analysisStartTime := None, finalScoreCalculated := False,
      initialAnimatedScoreRef := None, finalAnimatedTargetScoreRef := None,
      initialAttributesRef := None, finalAttributesRef := None\<rparr>"

text \<open>
  The interval fires once per element of the list.  Each run of the callback is taken to
  finish before the next one starts; the calls are collected in order.
\<close>

fun runInterval :: "render \<Rightarrow> webcam \<Rightarrow> tick list \<Rightarrow> webcam \<times> scoreUpdate list" where
  "runInterval r s [] = (s, [])"
| "runInterval r s (t # ts) =
    (let (s1, out) = intervalCallback r t s;
         (s2, outs) = runInterval r s1 ts
     in (s2, out @ outs))"

text \<open>
  A session: \<^verbatim>\<open>startFaceDetection\<close> is called, and the interval callback of the
  mounting render runs on the ticks.  The life cycle below shows that no other callback is
  ever installed.
\<close>

definition session :: "tick list \<Rightarrow> webcam \<times> scoreUpdate list" where
  "session ts = runInterval (render_of mounted) (startFaceDetection mounted) ts"

subsection \<open>The life cycle of the component\<close>

text \<open>
  \<^verbatim>\<open>startFaceDetection\<close> has one caller, the effect with dependency list
  \<^verbatim>\<open>[isModelLoaded]\<close>.  React runs that effect after the first render, where
  \<^verbatim>\<open>isModelLoaded\<close> is false and the effect does nothing, and after the render in which
  \<^verbatim>\<open>isModelLoaded\<close> has become true, and never again.  Then, if there is no video
  element, the effect does nothing; if the video is ready (\<^verbatim>\<open>readyState === 4\<close>) it
  calls the \<^verbatim>\<open>startFaceDetection\<close> of its render; otherwise it registers that function
  as the listener of \<^verbatim>\<open>play\<close>.  A function is identified here by the render that created
  it.  The component holds the state and the refs, the listener registered for
  \<^verbatim>\<open>play\<close> and the callback installed by \<^verbatim>\<open>setInterval\<close>.
\<close>

datatype video = NoVideo | Waiting | Ready

record component =
  hooks :: webcam
  isModelLoaded :: bool
  playListener :: "render option"
  interval :: "render option"

datatype browserEvent = ModelsLoaded video | Play | Interval tick

definition callStartFaceDetection :: "render \<Rightarrow> component \<Rightarrow> component" where
  "callStartFaceDetection r c = c\<lparr>hooks := startFaceDetection (hooks c), interval := Some r\<rparr>"

definition modelLoadedEffect :: "video \<Rightarrow> component \<Rightarrow> component" where
  "modelLoadedEffect v c =
    (let r = render_of (hooks c)
     in case v of
          NoVideo \<Rightarrow> c
        | Ready \<Rightarrow> callStartFaceDetection r c
        | Waiting \<Rightarrow> c\<lparr>playListener := Some r\<rparr>)"

fun componentStep :: "browserEvent \<Rightarrow> component \<Rightarrow> component \<times> scoreUpdate list" where
  "componentStep (ModelsLoaded v) c =
    (if isModelLoaded c then (c, [])
     else (modelLoadedEffect v (c\<lparr>isModelLoaded := True\<rparr>), []))"
| "componentStep Play c =
    (case playListener c of
       None \<Rightarrow> (c, [])
     | Some r \<Rightarrow> (callStartFaceDetection r c, []))"
| "componentStep (Interval t) c =
    (case interval c of
       None \<Rightarrow> (c, [])
     | Some r \<Rightarrow> (let (s, out) = intervalCallback r t (hooks c) in (c\<lparr>hooks := s\<rparr>, out)))"

fun runComponent :: "component \<Rightarrow> browserEvent list \<Rightarrow> component \<times> scoreUpdate list" where
  "runComponent c [] = (c, [])"
| "runComponent c (e # es) =
    (let (c1, out) = componentStep e c;
         (c2, outs) = runComponent c1 es
     in (c2, out @ outs))"

definition componentMounted :: component where
  "componentMounted =
    \<lparr>hooks = mounted, isModelLoaded = False, playListener = None, interval = None\<rparr>"

section \<open>The consumer (App)\<close>

record app =
  score :: "number option"
  feedback :: string
  finalScore :: "number option"
  finalFeedback :: string
  isAnalysisComplete :: bool
  attributes :: "FundabilityAttributes option"
  finalAttributes :: "FundabilityAttributes option"

text \<open>
  \<^verbatim>\<open>handleScoreUpdate\<close> of a render in which \<^verbatim>\<open>isAnalysisComplete\<close> is bound to
  \<open>seenComplete\<close>, applied to the state \<open>s\<close>.  The setters overwrite the fields they name.
\<close>

definition handleScoreUpdate ::
  "bool \<Rightarrow> number \<Rightarrow> string \<Rightarrow> bool \<Rightarrow> FundabilityAttributes option \<Rightarrow> app \<Rightarrow> app" where
  "handleScoreUpdate seenComplete nScore nFeedback final nAttributes s =
    (if seenComplete then s
     else if final then
       (let s1 = s\<lparr>finalScore := Some nScore, finalFeedback := nFeedback,
                   score := Some nScore, feedback := nFeedback\<rparr>;
            s2 = (case nAttributes of
                    Some a \<Rightarrow> s1\<lparr>finalAttributes := Some a, attributes := Some a\<rparr>
                  | None \<Rightarrow> s1)
        in s2\<lparr>isAnalysisComplete := True\<rparr>)
     else if \<not> seenComplete then
       (let s1 = s\<lparr>score := Some nScore, feedback := nFeedback\<rparr>
        in case nAttributes of
             Some a \<Rightarrow> s1\<lparr>attributes := Some a\<rparr>
           | None \<Rightarrow> s1)
     else s)"

section \<open>The presentation animator (ScoreDisplay)\<close>

text \<open>
  The props of the component.  An object is compared by identity in a dependency list, so
  the attributes prop is a pair of the address of the object and its fields.
\<close>

record props =
  prop_score :: "number option"
  prop_isFinalized :: bool
  prop_attributes :: "(nat \<times> FundabilityAttributes) option"

text \<open>
  The closures \<^verbatim>\<open>animate\<close> and \<^verbatim>\<open>animateAttributes\<close>: each owns a variable
  \<^verbatim>\<open>startTime\<close>, \<^verbatim>\<open>null\<close> until its first frame, and the start and target values
  of the effect run that created it.
\<close>

record scoreAnimation =
  score_startTime :: "number option"
  startValue :: number
  targetScore :: number

record attributesAnimation =
  attributes_startTime :: "number option"
  startValues :: FundabilityAttributes
  targetValues :: FundabilityAttributes

datatype frameCallback = Animate scoreAnimation | AnimateAttributes attributesAnimation

text \<open>
  The state and refs of the component, the queue of the window's pending animation frame
  callbacks with their handles, and what React keeps between commits: the props of the
  last commit and whether the last run of the score effect returned a cleanup function.
\<close>

record display =
  displayScore :: number
  currentScoreRef :: number
  animationFrameRef :: "nat option"
  displayAttributes :: FundabilityAttributes
  currentAttributesRef :: FundabilityAttributes
  frameQueue :: "(nat \<times> frameCallback) list"
  nextHandle :: nat
  committed :: props
  scoreCleanup :: bool

definition requestAnimationFrame :: "frameCallback \<Rightarrow> display \<Rightarrow> nat \<times> display" where
  "requestAnimationFrame cb d =
    (nextHandle d,
     d\<lparr>frameQueue := frameQueue d @ [(nextHandle d, cb)], nextHandle := Suc (nextHandle d)\<rparr>)"

definition cancelAnimationFrame :: "nat \<Rightarrow> display \<Rightarrow> display" where
  "cancelAnimationFrame h d = d\<lparr>frameQueue := filter (\<lambda>e. fst e \<noteq> h) (frameQueue d)\<rparr>"

definition DURATION :: number where
  "DURATION = 150"

definition easeOutQuad :: "number \<Rightarrow> number" where
  "easeOutQuad t = t * (2 - t)"

definition animate :: "scoreAnimation \<Rightarrow> number \<Rightarrow> display \<Rightarrow> display" where
  "animate a timestamp d =
    (let start = (case score_startTime a of None \<Rightarrow> timestamp | Some t \<Rightarrow> t);
         elapsed = timestamp - start;
         progress = min 1 (elapsed / DURATION);
         easedProgress = easeOutQuad progress;
         newDisplayScore =
           Math_round (startValue a + (targetScore a - startValue a) * easedProgress);
         d1 = d\<lparr>displayScore := newDisplayScore, currentScoreRef := newDisplayScore\<rparr>
     in if progress < 1
        then (let (h, d2) = requestAnimationFrame (Animate (a\<lparr>score_startTime := Some start\<rparr>)) d1
              in d2\<lparr>animationFrameRef := Some h\<rparr>)
        else d1\<lparr>animationFrameRef := None\<rparr>)"

definition animateAttributes :: "attributesAnimation \<Rightarrow> number \<Rightarrow> display \<Rightarrow> display" where
  "animateAttributes a timestamp d =
    (let start = (case attributes_startTime a of None \<Rightarrow> timestamp | Some t \<Rightarrow> t);
         elapsed = timestamp - start;
         progress = min 1 (elapsed / DURATION);
         easedProgress = easeOutQuad progress;
         sv = startValues a;
         tv = targetValues a;
         newAttributes =
           \<lparr>charisma = Math_round (charisma sv + (charisma tv - charisma sv) * easedProgress),
            dumbness = Math_round (dumbness sv + (dumbness tv - dumbness sv) * easedProgress),
            single = Math_round (single sv + (single tv - single sv) * easedProgress)\<rparr>;
         d1 = d\<lparr>displayAttributes := newAttributes, currentAttributesRef := newAttributes\<rparr>
     in if progress < 1
        then snd (requestAnimationFrame
                    (AnimateAttributes (a\<lparr>attributes_startTime := Some start\<rparr>)) d1)
        else d1)"

text \<open>
  The effect with dependency list \<^verbatim>\<open>[score, isFinalized]\<close>.  Only its last branch
  returns a cleanup function.
\<close>

definition scoreEffect :: "props \<Rightarrow> display \<Rightarrow> display" where
  "scoreEffect p d =
    (case prop_score p of
       None \<Rightarrow> d\<lparr>displayScore := 0, currentScoreRef := 0, scoreCleanup := False\<rparr>
     | Some sc \<Rightarrow>
        if prop_isFinalized p then
          (let d1 = d\<lparr>displayScore := sc, currentScoreRef := sc\<rparr>;
               d2 = (case animationFrameRef d1 of
                       Some h \<Rightarrow> (cancelAnimationFrame h d1)\<lparr>animationFrameRef := None\<rparr>
                     | None \<Rightarrow> d1)
           in d2\<lparr>scoreCleanup := False\<rparr>)
        else
          (let a = \<lparr>score_startTime = None, startValue = currentScoreRef d, targetScore = sc\<rparr>;
               d1 = (case animationFrameRef d of
                       Some h \<Rightarrow> cancelAnimationFrame h d
                     | None \<Rightarrow> d);
               (h, d2) = requestAnimationFrame (Animate a) d1
           in d2\<lparr>animationFrameRef := Some h, scoreCleanup := True\<rparr>))"

definition scoreEffectCleanup :: "display \<Rightarrow> display" where
  "scoreEffectCleanup d =
    (case animationFrameRef d of
       Some h \<Rightarrow> cancelAnimationFrame h d
     | None \<Rightarrow> d)"

text \<open>
  The effect with dependency list \<^verbatim>\<open>[attributes, isFinalized]\<close>.  It keeps no handle of
  the frame it requests and returns no cleanup function.
\<close>

definition attributesEffect :: "props \<Rightarrow> display \<Rightarrow> display" where
  "attributesEffect p d =
    (case prop_attributes p of
       None \<Rightarrow> d
     | Some (addr, attrs) \<Rightarrow>
        if prop_isFinalized p then
          d\<lparr>displayAttributes := attrs, currentAttributesRef := attrs\<rparr>
        else
          (let a = \<lparr>attributes_startTime = None, startValues = currentAttributesRef d,
                    targetValues = attrs\<rparr>
           in snd (requestAnimationFrame (AnimateAttributes a) d)))"

text \<open>
  A commit with new props, one per update the consumer has stored: React first runs the
  cleanup function of every effect one of whose dependencies has changed, then these
  effects in the order of their declaration.
\<close>

definition commit :: "props \<Rightarrow> display \<Rightarrow> display" where
  "commit p d =
    (let old = committed d;
         scoreChanged =
           ((prop_score p, prop_isFinalized p) \<noteq> (prop_score old, prop_isFinalized old));
         attributesChanged =
           ((prop_attributes p, prop_isFinalized p) \<noteq> (prop_attributes old, prop_isFinalized old));
         d1 = (if scoreChanged \<and> scoreCleanup d then scoreEffectCleanup d else d);
         d2 = (if scoreChanged then scoreEffect p d1 else d1);
         d3 = (if attributesChanged then attributesEffect p d2 else d2)
     in d3\<lparr>committed := p\<rparr>)"

text \<open>
  An animation frame: the callbacks pending when the frame starts run in the order of their
  registration; a callback requested during the frame waits for the next one.
\<close>

fun runCallbacks :: "(nat \<times> frameCallback) list \<Rightarrow> number \<Rightarrow> display \<Rightarrow> display" where
  "runCallbacks [] timestamp d = d"
| "runCallbacks ((h, Animate a) # cbs) timestamp d = runCallbacks cbs timestamp (animate a timestamp d)"
| "runCallbacks ((h, AnimateAttributes a) # cbs) timestamp d =
     runCallbacks cbs timestamp (animateAttributes a timestamp d)"

definition animationFrame :: "number \<Rightarrow> display \<Rightarrow> display" where
  "animationFrame timestamp d = runCallbacks (frameQueue d) timestamp (d\<lparr>frameQueue := []\<rparr>)"

datatype event = Props props | Frame number

fun runDisplay :: "display \<Rightarrow> event list \<Rightarrow> display" where
  "runDisplay d [] = d"
| "runDisplay d (Props p # es) = runDisplay (commit p d) es"
| "runDisplay d (Frame timestamp # es) = runDisplay (animationFrame timestamp d) es"

text \<open>
  The component after its first commit, with the props \<^verbatim>\<open>App\<close> first gives it: no score,
  no attributes, not finalized.
\<close>

definition displayMounted :: display where
  "displayMounted =
    \<lparr>displayScore = 0, currentScoreRef = 0, animationFrameRef = None,
     displayAttributes = \<lparr>charisma = 0, dumbness = 0, single = 0\<rparr>,
     currentAttributesRef = \<lparr>charisma = 0, dumbness = 0, single = 0\<rparr>,
     frameQueue = [], nextHandle = 1,
     committed = \<lparr>prop_score = None, prop_isFinalized = False, prop_attributes = None\<rparr>,
     scoreCleanup = False\<rparr>"

section \<open>The raw score in double precision\<close>

text \<open>
  A double is a real of the form \<open>m * 2 powi (e - 52)\<close> with an integer \<open>m\<close> of at most 53
  bits and \<open>e\<close> at least \<open>- 1022\<close>.  An arithmetic operation returns the double nearest
  to the exact result, the one with the even \<open>m\<close> in a tie: \<open>fl\<close> of the exact result.
  The exponent of a real is that of its binade, and the least exponent serves all smaller
  reals (the subnormal numbers).  Overflow to infinity is left out: no value of this
  computation exceeds 256 when the fields of the snapshot are between 0 and 1.
\<close>

definition roundTiesToEven :: "real \<Rightarrow> int" where
  "roundTiesToEven y =
    (let f = \<lfloor>y\<rfloor>
     in if y - of_int f < 1 / 2 then f
        else if y - of_int f > 1 / 2 then f + 1
        else if even f then f else f + 1)"

definition binade :: "real \<Rightarrow> int" where
  "binade x = max \<lfloor>log 2 \<bar>x\<bar>\<rfloor> (- 1022)"

definition fl :: "real \<Rightarrow> real" where
  "fl x =
    (if x = 0 then 0
     else (let ulp = 2 powi (binade x - 52)
           in ulp * of_int (roundTiesToEven (x / ulp))))"

text \<open>
  \<^verbatim>\<open>calculateRawFundabilityScore\<close> with the rounding of every multiplication, addition
  and subtraction written out, in the order in which the source evaluates them.  The
  language leaves the accuracy of \<^verbatim>\<open>Math.sin\<close> to the engine, so the sine the engine
  computes is a parameter.  \<open>Math_sin_rounded\<close> is the sine rounded to the nearest double.
\<close>

definition calculateRawFundabilityScore_double ::
  "(number \<Rightarrow> number) \<Rightarrow> FaceDetectionResult option \<Rightarrow> number" where
  "calculateRawFundabilityScore_double msin detection =
    (case detection of
       None \<Rightarrow> 0
     | Some d \<Rightarrow>
        (let confidence = detection_score d;
             e = expressions d;
             baseScore = fl (confidence * 50);
             expressionBonus =
               fl (fl (fl (happy e * 30) + fl (neutral e * 15)) + fl (surprised e * 10));
             expressionPenalty = fl (fl (sad e * 20) + fl (angry e * 25));
             seedValue = fl (fl (fl (confidence * 100) + fl (happy e * 50)) + fl (neutral e * 25));
             deterministicFactor = fl (msin seedValue * 5);
             totalScore =
               fl (fl (fl (baseScore + expressionBonus) - expressionPenalty) + deterministicFactor)
         in Math_round (max 0 (min 100 totalScore))))"

definition Math_sin_rounded :: "number \<Rightarrow> number" where
  "Math_sin_rounded x = fl (sin x)"

text \<open>A snapshot as the program holds it: every field is the nearest double.\<close>

definition asDouble :: "FaceDetectionResult \<Rightarrow> FaceDetectionResult" where
  "asDouble d =
    \<lparr>detection_score = fl (detection_score d),
     expressions =
       \<lparr>neutral = fl (neutral (expressions d)), happy = fl (happy (expressions d)),
        sad = fl (sad (expressions d)), angry = fl (angry (expressions d)),
        fearful = fl (fearful (expressions d)), disgusted = fl (disgusted (expressions d)),
        surprised = fl (surprised (expressions d))\<rparr>\<rparr>"

section \<open>Vocabulary of the properties\<close>

text \<open>A score or attribute value of the data model: an integer from 0 to 100.\<close>

definition inRange :: "number \<Rightarrow> bool" where
  "inRange x = (x \<in> \<int> \<and> 0 \<le> x \<and> x \<le> 100)"

definition attributesInRange :: "FundabilityAttributes \<Rightarrow> bool" where
  "attributesInRange a = (inRange (charisma a) \<and> inRange (dumbness a) \<and> inRange (single a))"

definition updateInRange :: "scoreUpdate \<Rightarrow> bool" where
  "updateInRange u =
    (inRange (newScore u) \<and>
     (case newAttributes u of None \<Rightarrow> True | Some a \<Rightarrow> attributesInRange a))"

text \<open>Every ref that is set holds a value of the data model.\<close>

definition refsInRange :: "webcam \<Rightarrow> bool" where
  "refsInRange s =
    ((case initialAnimatedScoreRef s of None \<Rightarrow> True | Some v \<Rightarrow> inRange v) \<and>
     (case finalAnimatedTargetScoreRef s of None \<Rightarrow> True | Some v \<Rightarrow> inRange v) \<and>
     (case initialAttributesRef s of None \<Rightarrow> True | Some a \<Rightarrow> attributesInRange a) \<and>
     (case finalAttributesRef s of None \<Rightarrow> True | Some a \<Rightarrow> attributesInRange a))"

text \<open>
  Every function the component has registered or installed is one of the mounting render,
  nothing is registered before the models are loaded, and the finalized flag is not set.
\<close>

definition staleClosures :: "component \<Rightarrow> bool" where
  "staleClosures c =
    ((isModelLoaded c \<or> hooks c = mounted) \<and>
     (playListener c = None \<or> playListener c = Some (render_of mounted)) \<and>
     (interval c = None \<or> interval c = Some (render_of mounted)) \<and>
     (isModelLoaded c \<or> (playListener c = None \<and> interval c = None)) \<and>
     finalScoreCalculated (hooks c) = False)"

text \<open>A poll tick whose inference yields no detection, or throws.\<close>

definition noFace :: "tick \<Rightarrow> bool" where
  "noFace t = (detectAllFaces t = Faces [] \<or> detectAllFaces t = Throws)"

text \<open>The band holds the score.\<close>

definition inBand :: "number \<Rightarrow> feedbackBand \<Rightarrow> bool" where
  "inBand x fb = (x \<ge> minScore fb \<and> x \<le> maxScore fb)"

text \<open>
  The raw score as the specification words it: the sum of base, bonus, penalty and
  perturbation, over the reals, clamped to 0..100 and rounded to the nearest integer.
\<close>

definition clamp :: "number \<Rightarrow> number \<Rightarrow> number \<Rightarrow> number" where
  "clamp x lo hi = (if x < lo then lo else if x > hi then hi else x)"

definition totalScore_spec :: "FaceDetectionResult \<Rightarrow> number" where
  "totalScore_spec snapshot =
    (let confidence = detection_score snapshot;
         p = expressions snapshot
     in confidence * 50 + happy p * 30 + neutral p * 15 + surprised p * 10
          - sad p * 20 - angry p * 25
          + sin (confidence * 100 + happy p * 50 + neutral p * 25) * 5)"

definition rawScore_spec :: "FaceDetectionResult \<Rightarrow> number" where
  "rawScore_spec snapshot = of_int (round (clamp (totalScore_spec snapshot) 0 100))"

text \<open>
  The snapshots of the data model: confidence and every probability between 0 and 1.
\<close>

definition inUnit :: "number \<Rightarrow> bool" where
  "inUnit x = (0 \<le> x \<and> x \<le> 1)"

definition validSnapshot :: "FaceDetectionResult \<Rightarrow> bool" where
  "validSnapshot d =
    (inUnit (detection_score d) \<and> inUnit (neutral (expressions d)) \<and>
     inUnit (happy (expressions d)) \<and> inUnit (sad (expressions d)) \<and>
     inUnit (angry (expressions d)) \<and> inUnit (fearful (expressions d)) \<and>
     inUnit (disgusted (expressions d)) \<and> inUnit (surprised (expressions d)))"

text \<open>
  What the theorems ask of the engine's sine: it is within \<open>2 powi (- 45)\<close> of the sine.
  The same number bounds the rounding error of one operation on values up to 256.
\<close>

definition doubleSlack :: real where
  "doubleSlack = 2 powi (- 45)"

definition sinAccurate :: "(number \<Rightarrow> number) \<Rightarrow> bool" where
  "sinAccurate msin = (\<forall>x. \<bar>msin x - sin x\<bar> \<le> doubleSlack)"

text \<open>
  \<^verbatim>\<open>Math.round\<close> has its ties at the half-integers.  A value is far from a tie when it
  is more than \<open>1 / 10 ^ 11\<close> away from every half-integer.
\<close>

definition farFromTie :: "number \<Rightarrow> bool" where
  "farFromTie y = (1 / 10 ^ 11 < frac (y + 1 / 2) \<and> frac (y + 1 / 2) < 1 - 1 / 10 ^ 11)"

text \<open>
  The pending animation frame callbacks of the score transition, by their handles, and the
  invariant the score effect keeps: there is at most one, and \<^verbatim>\<open>animationFrameRef\<close>
  holds its handle.
\<close>

definition isAnimate :: "nat \<times> frameCallback \<Rightarrow> bool" where
  "isAnimate e = (case snd e of Animate a \<Rightarrow> True | AnimateAttributes a \<Rightarrow> False)"

definition scoreFrames :: "display \<Rightarrow> nat list" where
  "scoreFrames d = map fst (filter isAnimate (frameQueue d))"

definition scoreFrameOwned :: "display \<Rightarrow> bool" where
  "scoreFrameOwned d =
    (length (scoreFrames d) \<le> 1 \<and> list_all (\<lambda>h. animationFrameRef d = Some h) (scoreFrames d))"

subsection \<open>Sample inputs\<close>

text \<open>
  The snapshot of the specification's scenario (confidence 0.9, happy 0.8, neutral 0.1), and
  the same face a little sadder.
\<close>

definition smiling :: FaceDetectionResult where
  "smiling = \<lparr>detection_score = 9 / 10,
              expressions = \<lparr>neutral = 1 / 10, happy = 8 / 10, sad = 0, angry = 0, fearful = 0,
                             disgusted = 0, surprised = 0\<rparr>\<rparr>"

definition sadder :: FaceDetectionResult where
  "sadder = \<lparr>detection_score = 9 / 10,
             expressions = \<lparr>neutral = 1 / 10, happy = 8 / 10, sad = 1 / 10, angry = 0, fearful = 0,
                            disgusted = 0, surprised = 0\<rparr>\<rparr>"

text \<open>
  The double nearest to 0.35, a snapshot whose only nonzero field is a surprise of that
  value, and one with a surprise of one half.
\<close>

definition tieDouble :: number where
  "tieDouble = 6305039478318694 / 2 ^ 54"

definition tieSnapshot :: FaceDetectionResult where
  "tieSnapshot =
    \<lparr>detection_score = 0,
     expressions = \<lparr>neutral = 0, happy = 0, sad = 0, angry = 0, fearful = 0, disgusted = 0,
                    surprised = tieDouble\<rparr>\<rparr>"

definition halfSurprised :: FaceDetectionResult where
  "halfSurprised =
    \<lparr>detection_score = 0,
     expressions = \<lparr>neutral = 0, happy = 0, sad = 0, angry = 0, fearful = 0, disgusted = 0,
                    surprised = 1 / 2\<rparr>\<rparr>"

text \<open>A tick at time \<open>now\<close> on which the video plays and the inference finds one face.\<close>

definition faceTick :: "number \<Rightarrow> FaceDetectionResult \<Rightarrow> tick" where
  "faceTick now person =
    \<lparr>currentTime = now, startTime = now, videoPlaying = True, context2d = True,
     detectAllFaces = Faces [person]\<rparr>"

text \<open>A tick at time \<open>now\<close> on which the video plays and the inference finds nothing.\<close>

definition emptyTick :: "number \<Rightarrow> tick" where
  "emptyTick now =
    \<lparr>currentTime = now, startTime = now, videoPlaying = True, context2d = True,
     detectAllFaces = Faces []\<rparr>"

text \<open>
  Polls every 100 ms, from the first at time 1000 to the one 5200 ms later: the same face
  on each of them, or no face on any.
\<close>

definition steadyTicks :: "tick list" where
  "steadyTicks = map (\<lambda>k. faceTick (1000 + 100 * real k) smiling) [0..<53]"

definition emptyTicks :: "tick list" where
  "emptyTicks = map (\<lambda>k. emptyTick (1000 + 100 * real k)) [0..<53]"

text \<open>
  A render that has bound the start time 1000 and the finalized flag false, a session state
  with all four refs set, and three ticks with a face, 5000 ms after that start and later.
\<close>

definition runningRender :: render where
  "runningRender = \<lparr>seen_analysisStartTime = Some 1000, seen_finalScoreCalculated = False\<rparr>"

definition runningState :: webcam where
  "runningState =
    \<lparr>analysisStartTime = Some 1000, finalScoreCalculated = False,
     initialAnimatedScoreRef = Some 73, finalAnimatedTargetScoreRef = Some 59,
     initialAttributesRef = Some \<lparr>charisma = 60, dumbness = 40, single = 30\<rparr>,
     finalAttributesRef = Some \<lparr>charisma = 62, dumbness = 38, single = 33\<rparr>\<rparr>"


text \<open>A consumer state that already holds a locked result.\<close>

definition lockedApp :: app where
  "lockedApp =
    \<lparr>score = Some 59, feedback = ''Middle of the pack. Try adding glasses?'',
     finalScore = Some 59, finalFeedback = ''Middle of the pack. Try adding glasses?'',
     isAnalysisComplete = True,
     attributes = Some \<lparr>charisma = 62, dumbness = 38, single = 33\<rparr>,
     finalAttributes = Some \<lparr>charisma = 62, dumbness = 38, single = 33\<rparr>\<rparr>"

definition runningApp :: app where
  "runningApp =
    \<lparr>score = Some 58, feedback = ''Middle of the pack. Try adding glasses?'',
     finalScore = None, finalFeedback = [],
     isAnalysisComplete = False,
     attributes = Some \<lparr>charisma = 61, dumbness = 39, single = 32\<rparr>,
     finalAttributes = None\<rparr>"

text \<open>
  The display receives a non-final update, one frame passes, the final update arrives
  while the transitions are in flight, and two more frames pass.
\<close>

definition lastAnimated :: FundabilityAttributes where
  "lastAnimated = \<lparr>charisma = 60, dumbness = 40, single = 30\<rparr>"

definition lockedAttributes :: FundabilityAttributes where
  "lockedAttributes = \<lparr>charisma = 62, dumbness = 38, single = 33\<rparr>"

definition untilFinal :: "event list" where
  "untilFinal =
    [Props \<lparr>prop_score = Some 50, prop_isFinalized = False, prop_attributes = Some (1, lastAnimated)\<rparr>,
     Frame 1000,
     Props \<lparr>prop_score = Some 52, prop_isFinalized = True, prop_attributes = Some (2, lockedAttributes)\<rparr>]"

definition framesAfterFinal :: "event list" where
  "framesAfterFinal = [Frame 1016, Frame 1200]"

section \<open>Rounding\<close>

lemma Math_round_Ints: "Math_round x \<in> \<int>"
  by (simp add: Math_round_def)

lemma Math_round_of_int: "Math_round (of_int n) = of_int n"
  by (simp add: Math_round_def)

lemma Math_round_bounds:
  assumes "of_int a \<le> x" and "x \<le> of_int b"
  shows "of_int a \<le> Math_round x \<and> Math_round x \<le> of_int b"
proof -
  have "a \<le> \<lfloor>x + 1 / 2\<rfloor>"
    using assms(1) by (simp add: le_floor_iff)
  moreover have "\<lfloor>x + 1 / 2\<rfloor> \<le> b"
  proof -
    have "x + 1 / 2 < of_int (b + 1)"
      using assms(2) by simp
    then have "\<lfloor>x + 1 / 2\<rfloor> < b + 1"
      by (simp only: floor_less_iff)
    then show ?thesis by simp
  qed
  ultimately show ?thesis
    by (simp add: Math_round_def)
qed

lemma Math_round_clamp:
  assumes "a \<le> b"
  shows "of_int a \<le> Math_round (max (of_int a) (min (of_int b) x)) \<and>
         Math_round (max (of_int a) (min (of_int b) x)) \<le> of_int b"
  using assms by (intro Math_round_bounds) simp_all

lemma Math_round_eq:
  assumes "of_int n - 1 / 2 \<le> x" and "x < of_int n + 1 / 2"
  shows "Math_round x = of_int n"
proof -
  have "\<lfloor>x + 1 / 2\<rfloor> = n"
    using assms by (intro floor_unique) simp_all
  then show ?thesis
    by (simp add: Math_round_def)
qed

lemma inRangeI:
  "x \<in> \<int> \<Longrightarrow> a \<le> x \<Longrightarrow> x \<le> b \<Longrightarrow> 0 \<le> a \<Longrightarrow> b \<le> 100 \<Longrightarrow> inRange x"
  by (simp add: inRange_def)

lemma inRange_round_clamp: "inRange (Math_round (max 0 (min 100 x)))"
  using Math_round_clamp [of 0 100 x] by (simp add: inRange_def Math_round_Ints)

lemma Math_round_inRange: "inRange x \<Longrightarrow> Math_round (max 0 (min 100 x)) = x"
  by (auto simp: inRange_def Math_round_of_int elim!: Ints_cases)

section \<open>The sine of the sample snapshot\<close>

text \<open>
  The seed of the sample snapshot is \<open>0.9 * 100 + 0.8 * 50 + 0.1 * 25 = 132.5\<close>.  Its
  sine is the sine of \<open>132.5 - 42 * pi\<close>, a little more than one half.  The bounds on
  \<open>pi\<close> come from Machin's formula and the alternating series of the arc tangent.
\<close>

lemma arctan_between:
  fixes x :: real
  assumes "0 < x" and "x \<le> 1"
  shows "(\<Sum>i<2 * n. (- 1) ^ i * (1 / real (i * 2 + 1) * x ^ (i * 2 + 1))) \<le> arctan x"
    and "arctan x \<le> (\<Sum>i<2 * n + 1. (- 1) ^ i * (1 / real (i * 2 + 1) * x ^ (i * 2 + 1)))"
proof -
  let ?a = "\<lambda>i. 1 / real (i * 2 + 1) * x ^ (i * 2 + 1)"
  have small: "\<bar>x\<bar> \<le> 1"
    using assms by simp
  have first: "0 < ?a 0"
    using assms by simp
  have "(\<Sum>i. (- 1) ^ i * ?a i)
          \<in> {\<Sum>i<2 * n. (- 1) ^ i * ?a i .. \<Sum>i<2 * n + 1. (- 1) ^ i * ?a i}"
    using summable_Leibniz(2) [OF zeroseq_arctan_series [OF small] monoseq_arctan_series [OF small]]
      first
    by blast
  then have "arctan x \<in> {\<Sum>i<2 * n. (- 1) ^ i * ?a i .. \<Sum>i<2 * n + 1. (- 1) ^ i * ?a i}"
    by (simp only: arctan_series [OF small])
  then show "(\<Sum>i<2 * n. (- 1) ^ i * ?a i) \<le> arctan x"
    and "arctan x \<le> (\<Sum>i<2 * n + 1. (- 1) ^ i * ?a i)"
    by simp_all
qed

lemma arctan_fifth:
  "(1 / 5 - (1 / 5) ^ 3 / 3 + (1 / 5) ^ 5 / 5 - (1 / 5) ^ 7 / 7 :: real) \<le> arctan (1 / 5)"
  "arctan (1 / 5) \<le> (1 / 5 - (1 / 5) ^ 3 / 3 + (1 / 5) ^ 5 / 5 :: real)"
  using arctan_between(1) [of "1 / 5" 2] arctan_between(2) [of "1 / 5" 1]
  by (simp_all add: eval_nat_numeral)

lemma arctan_239:
  "(1 / 239 - (1 / 239) ^ 3 / 3 :: real) \<le> arctan (1 / 239)"
  "arctan (1 / 239) \<le> (1 / 239 :: real)"
  using arctan_between(1) [of "1 / 239" 1] arctan_between(2) [of "1 / 239" 0]
  by (simp_all add: eval_nat_numeral)

lemma pi_bounds: "31415 / 10000 < pi" "pi < 31417 / 10000"
proof -
  have pi: "pi = 16 * arctan (1 / 5) - 4 * arctan (1 / 239)"
    using machin by simp
  show "31415 / 10000 < pi"
    using arctan_fifth(1) arctan_239(2) unfolding pi by (simp add: eval_nat_numeral)
  show "pi < 31417 / 10000"
    using arctan_fifth(2) arctan_239(1) unfolding pi by (simp add: eval_nat_numeral)
qed

lemma sin_cubic_lower:
  fixes x :: real
  assumes "0 < x"
  shows "x - x ^ 3 / 6 \<le> sin x"
proof -
  obtain t where t: "sin x = (\<Sum>m<3. sin_coeff m * x ^ m)
      + (sin (t + 1 / 2 * real (3::nat) * pi) / fact 3) * x ^ 3"
    using Maclaurin_sin_expansion3 [of 3 x] assms by auto
  have head: "(\<Sum>m<3. sin_coeff m * x ^ m) = x"
    by (simp add: sin_coeff_def eval_nat_numeral)
  have "0 \<le> x ^ 3 / 6"
    using assms by simp
  moreover have "- 1 \<le> sin (t + 1 / 2 * real (3::nat) * pi)"
    by (rule sin_ge_minus_one)
  ultimately have "(- 1) * (x ^ 3 / 6) \<le> sin (t + 1 / 2 * real (3::nat) * pi) * (x ^ 3 / 6)"
    by (rule mult_right_mono [rotated])
  then have "- (x ^ 3 / 6) \<le> (sin (t + 1 / 2 * real (3::nat) * pi) / fact 3) * x ^ 3"
    by (simp add: fact_numeral)
  with head t show ?thesis
    by simp
qed

lemma sin_shift: "sin (x - 42 * pi) = sin x"
proof -
  have "sin (x - real 42 * pi) = sin x"
    unfolding sin_diff by (simp only: sin_npi cos_npi) simp
  then show ?thesis
    by simp
qed

lemma sin_near_sample:
  fixes s :: real
  assumes "13249 / 100 \<le> s" and "s \<le> 13251 / 100"
  shows "9 / 20 \<le> sin s" and "sin s \<le> 29 / 50"
proof -
  define y :: real where "y = s - 42 * pi"
  have y: "53 / 100 < y" "y < 57 / 100"
    using pi_bounds assms by (simp_all add: y_def)
  have s: "sin s = sin y"
    unfolding y_def by (rule sin_shift [symmetric])
  have "y ^ 3 \<le> (3 / 5) ^ 3"
    using y by (intro power_mono) simp_all
  moreover have "(3 / 5 :: real) ^ 3 = 27 / 125"
    by (simp add: power3_eq_cube)
  ultimately have "y ^ 3 \<le> 27 / 125"
    by simp
  then have "9 / 20 \<le> y - y ^ 3 / 6"
    using y(1) by linarith
  also have "\<dots> \<le> sin y"
    using y(1) by (intro sin_cubic_lower) simp
  finally show "9 / 20 \<le> sin s"
    unfolding s .
  have "sin y \<le> y"
    using y(1) by (intro sin_x_le_x) simp
  then show "sin s \<le> 29 / 50"
    unfolding s using y(2) by simp
qed

lemma sin_sample: "2 / 5 \<le> sin (265 / 2 :: real)" "sin (265 / 2 :: real) < 3 / 5"
  using sin_near_sample [of "265 / 2"] by simp_all

lemma raw_smiling: "calculateRawFundabilityScore (Some smiling) = 73"
proof -
  let ?x = "141 / 2 + sin (265 / 2 :: real) * 5"
  have b: "145 / 2 \<le> ?x" "?x < 147 / 2"
    using sin_sample by simp_all
  have "max 0 (min 100 ?x) = ?x"
    using b by simp
  moreover have "Math_round ?x = of_int 73"
    using b by (intro Math_round_eq) simp_all
  ultimately show ?thesis
    by (simp add: calculateRawFundabilityScore_def smiling_def)
qed

lemma raw_sadder: "calculateRawFundabilityScore (Some sadder) = 71"
proof -
  let ?x = "137 / 2 + sin (265 / 2 :: real) * 5"
  have b: "141 / 2 \<le> ?x" "?x < 143 / 2"
    using sin_sample by simp_all
  have "max 0 (min 100 ?x) = ?x"
    using b by simp
  moreover have "Math_round ?x = of_int 71"
    using b by (intro Math_round_eq) simp_all
  ultimately show ?thesis
    by (simp add: calculateRawFundabilityScore_def sadder_def)
qed

section \<open>Scoring functions\<close>

lemma clamp_max_min: "max 0 (min 100 x) = clamp x 0 100"
  by (simp add: clamp_def max_def min_def)

lemma real_reading_is_formula: "calculateRawFundabilityScore (Some d) = rawScore_spec d"
proof -
  have regroup: "a + (b + c + e) - (f + g) + h = a + b + c + e - f - g + h"
    for a b c e f g h :: real
    by simp
  show ?thesis
    unfolding calculateRawFundabilityScore_def rawScore_spec_def totalScore_spec_def Let_def
      clamp_max_min Math_round_def round_def option.case regroup ..
qed

section \<open>The raw score in double precision and the formula\<close>

text \<open>
  Rounding to the nearest double moves a value of at most \<open>2 powi m\<close> by at most
  \<open>2 powi (m - 53)\<close>.  The eighteen roundings of the raw score and the error of the
  engine's sine add up to less than \<open>43 * doubleSlack\<close>, on every snapshot of the data
  model.  So the program and the formula agree unless the exact sum is that close to a tie
  of \<^verbatim>\<open>Math.round\<close>; where a product lands exactly on a tie, they differ.
\<close>

lemma roundTiesToEven_close: "\<bar>of_int (roundTiesToEven y) - y\<bar> \<le> 1 / 2"
proof -
  have "of_int \<lfloor>y\<rfloor> \<le> y" "y < of_int \<lfloor>y\<rfloor> + 1"
    by linarith+
  then show ?thesis
    by (auto simp: roundTiesToEven_def Let_def)
qed

lemma binade_eq:
  assumes "2 powi k \<le> \<bar>x\<bar>" and "\<bar>x\<bar> < 2 powi (k + 1)" and "- 1022 \<le> k"
  shows "binade x = k"
proof -
  have "(0::real) < 2 powi k"
    by simp
  with assms(1) have pos: "0 < \<bar>x\<bar>"
    by linarith
  have eq: "2 powr real_of_int j = (2::real) powi j" for j
    by (rule powr_real_of_int') simp_all
  have "2 powr real_of_int k \<le> \<bar>x\<bar>"
    using assms(1) by (simp only: eq)
  then have lo: "real_of_int k \<le> log 2 \<bar>x\<bar>"
    using pos by (simp add: le_log_iff)
  have "\<bar>x\<bar> < 2 powr real_of_int (k + 1)"
    using assms(2) by (simp only: eq)
  then have hi: "log 2 \<bar>x\<bar> < real_of_int (k + 1)"
    using pos by (simp add: log_less_iff)
  have "\<lfloor>log 2 \<bar>x\<bar>\<rfloor> = k"
    using lo hi by (intro floor_unique) simp_all
  then show ?thesis
    using assms(3) by (simp add: binade_def)
qed

lemma fl_eval:
  assumes "2 powi k \<le> \<bar>x\<bar>" and "\<bar>x\<bar> < 2 powi (k + 1)" and "- 1022 \<le> k"
  shows "fl x = 2 powi (k - 52) * of_int (roundTiesToEven (x / 2 powi (k - 52)))"
proof -
  have "(0::real) < 2 powi k"
    by simp
  with assms(1) have "0 < \<bar>x\<bar>"
    by linarith
  then have "x \<noteq> 0"
    by simp
  then show ?thesis
    by (simp add: fl_def Let_def binade_eq [OF assms])
qed

lemma binade_le:
  assumes "x \<noteq> 0" and "\<bar>x\<bar> \<le> 2 powi m" and "- 1022 \<le> m"
  shows "binade x \<le> m"
proof -
  have "\<bar>x\<bar> \<le> 2 powr real_of_int m"
    using assms(2) by (simp add: powr_real_of_int')
  then have "log 2 \<bar>x\<bar> \<le> real_of_int m"
    using assms(1) by (simp add: log_le_iff)
  then have "\<lfloor>log 2 \<bar>x\<bar>\<rfloor> \<le> m"
    by (simp add: floor_le_iff)
  then show ?thesis
    using assms(3) by (simp add: binade_def)
qed

lemma fl_close:
  assumes "\<bar>x\<bar> \<le> 2 powi m" and "- 1022 \<le> m"
  shows "\<bar>fl x - x\<bar> \<le> 2 powi (m - 53)"
proof (cases "x = 0")
  case True
  then show ?thesis by (simp add: fl_def)
next
  case False
  define ulp :: real where "ulp = 2 powi (binade x - 52)"
  have ulp: "0 < ulp"
    by (simp add: ulp_def)
  have "binade x - 52 \<le> m - 52"
    using binade_le [OF False assms] by simp
  then have small: "ulp \<le> 2 powi (m - 52)"
    unfolding ulp_def by (intro power_int_increasing) simp_all
  have "fl x - x = ulp * (of_int (roundTiesToEven (x / ulp)) - x / ulp)"
    using False ulp by (simp add: fl_def Let_def ulp_def [symmetric] algebra_simps)
  then have "\<bar>fl x - x\<bar> = ulp * \<bar>of_int (roundTiesToEven (x / ulp)) - x / ulp\<bar>"
    using ulp by (simp add: abs_mult)
  also have "\<dots> \<le> ulp * (1 / 2)"
    using ulp roundTiesToEven_close [of "x / ulp"] by (intro mult_left_mono) simp_all
  also have "\<dots> \<le> 2 powi (m - 52) * (1 / 2)"
    using small by simp
  also have "\<dots> = 2 powi (m - 53)"
    by (simp add: power_int_diff)
  finally show ?thesis .
qed

lemma doubleSlack_bounds: "0 < doubleSlack" "doubleSlack \<le> 1 / 1000000"
  by (simp_all add: doubleSlack_def power_int_minus field_simps)

lemma doubleSlack_tolerance: "43 * doubleSlack < 1 / 10 ^ 11"
  by (simp add: doubleSlack_def power_int_minus field_simps)

lemma fl_zero [simp]: "fl 0 = 0"
  by (simp add: fl_def)

lemma fl_near:
  assumes "\<bar>x\<bar> \<le> 256"
  shows "\<bar>fl x - x\<bar> \<le> doubleSlack"
  using fl_close [of x 8] assms by (simp add: doubleSlack_def)

lemma fl_sum:
  assumes "\<bar>a - a'\<bar> \<le> ea" and "\<bar>b - b'\<bar> \<le> eb" and "\<bar>a'\<bar> + \<bar>b'\<bar> + ea + eb \<le> 256"
  shows "\<bar>fl (a + b) - (a' + b')\<bar> \<le> ea + eb + doubleSlack"
proof -
  have "\<bar>a + b\<bar> \<le> 256"
    using assms by linarith
  then have "\<bar>fl (a + b) - (a + b)\<bar> \<le> doubleSlack"
    by (rule fl_near)
  then show ?thesis
    using assms(1,2) by linarith
qed

lemma fl_diff:
  assumes "\<bar>a - a'\<bar> \<le> ea" and "\<bar>b - b'\<bar> \<le> eb" and "\<bar>a'\<bar> + \<bar>b'\<bar> + ea + eb \<le> 256"
  shows "\<bar>fl (a - b) - (a' - b')\<bar> \<le> ea + eb + doubleSlack"
proof -
  have "\<bar>a - b\<bar> \<le> 256"
    using assms by linarith
  then have "\<bar>fl (a - b) - (a - b)\<bar> \<le> doubleSlack"
    by (rule fl_near)
  then show ?thesis
    using assms(1,2) by linarith
qed

lemma fl_times:
  assumes "inUnit x" and "0 \<le> k" and "k \<le> 256"
  shows "\<bar>fl (x * k) - x * k\<bar> \<le> doubleSlack" and "0 \<le> x * k" and "x * k \<le> k"
proof -
  have x: "0 \<le> x" "x \<le> 1"
    using assms(1) by (simp_all add: inUnit_def)
  show "0 \<le> x * k"
    using x assms(2) by simp
  show le: "x * k \<le> k"
    using mult_right_mono [of x 1 k] x assms(2) by simp
  have "\<bar>x * k\<bar> \<le> 256"
    using \<open>0 \<le> x * k\<close> le assms(3) by linarith
  then show "\<bar>fl (x * k) - x * k\<bar> \<le> doubleSlack"
    by (rule fl_near)
qed

lemma sin_lipschitz: "\<bar>sin a - sin b\<bar> \<le> \<bar>a - b\<bar>" for a b :: real
proof -
  have "\<bar>sin a - sin b\<bar> = 2 * \<bar>sin ((a - b) / 2)\<bar> * \<bar>cos ((a + b) / 2)\<bar>"
    by (simp add: sin_diff_sin abs_mult)
  also have "\<dots> \<le> 2 * \<bar>(a - b) / 2\<bar> * 1"
    by (intro mult_mono abs_sin_x_le_abs_x) simp_all
  finally show ?thesis
    by simp
qed


lemma total_close:
  assumes sin: "sinAccurate msin" and valid: "validSnapshot d"
  shows "\<exists>tot. calculateRawFundabilityScore_double msin (Some d) = Math_round (max 0 (min 100 tot)) \<and>
               \<bar>tot - totalScore_spec d\<bar> \<le> 43 * doubleSlack"
proof -
  define c h n su sa an where "c = detection_score d" and "h = happy (expressions d)"
    and "n = neutral (expressions d)" and "su = surprised (expressions d)"
    and "sa = sad (expressions d)" and "an = angry (expressions d)"
  have u: "inUnit c" "inUnit h" "inUnit n" "inUnit su" "inUnit sa" "inUnit an"
    using valid by (simp_all add: validSnapshot_def c_def h_def n_def su_def sa_def an_def)
  note s = doubleSlack_bounds
  define base where "base = fl (c * 50)"
  define bonus where "bonus = fl (fl (fl (h * 30) + fl (n * 15)) + fl (su * 10))"
  define penalty where "penalty = fl (fl (sa * 20) + fl (an * 25))"
  define seed where "seed = fl (fl (fl (c * 100) + fl (h * 50)) + fl (n * 25))"
  define factor where "factor = fl (msin seed * 5)"
  define tot where "tot = fl (fl (fl (base + bonus) - penalty) + factor)"
  have base: "\<bar>base - c * 50\<bar> \<le> doubleSlack"
    unfolding base_def using fl_times(1) [OF u(1), of 50] by simp
  have b12: "\<bar>fl (fl (h * 30) + fl (n * 15)) - (h * 30 + n * 15)\<bar> \<le> 3 * doubleSlack"
    using fl_sum [OF fl_times(1) [OF u(2), of 30] fl_times(1) [OF u(3), of 15]]
      fl_times(2,3) [OF u(2), of 30] fl_times(2,3) [OF u(3), of 15] s
    by simp
  have bonus: "\<bar>bonus - (h * 30 + n * 15 + su * 10)\<bar> \<le> 5 * doubleSlack"
    unfolding bonus_def
    using fl_sum [OF b12 fl_times(1) [OF u(4), of 10]]
      fl_times(2,3) [OF u(2), of 30] fl_times(2,3) [OF u(3), of 15] fl_times(2,3) [OF u(4), of 10] s
    by simp
  have penalty: "\<bar>penalty - (sa * 20 + an * 25)\<bar> \<le> 3 * doubleSlack"
    unfolding penalty_def
    using fl_sum [OF fl_times(1) [OF u(5), of 20] fl_times(1) [OF u(6), of 25]]
      fl_times(2,3) [OF u(5), of 20] fl_times(2,3) [OF u(6), of 25] s
    by simp
  have s12: "\<bar>fl (fl (c * 100) + fl (h * 50)) - (c * 100 + h * 50)\<bar> \<le> 3 * doubleSlack"
    using fl_sum [OF fl_times(1) [OF u(1), of 100] fl_times(1) [OF u(2), of 50]]
      fl_times(2,3) [OF u(1), of 100] fl_times(2,3) [OF u(2), of 50] s
    by simp
  have seed: "\<bar>seed - (c * 100 + h * 50 + n * 25)\<bar> \<le> 5 * doubleSlack"
    unfolding seed_def
    using fl_sum [OF s12 fl_times(1) [OF u(3), of 25]]
      fl_times(2,3) [OF u(1), of 100] fl_times(2,3) [OF u(2), of 50] fl_times(2,3) [OF u(3), of 25] s
    by simp
  define S where "S = sin (c * 100 + h * 50 + n * 25)"
  have S: "\<bar>S\<bar> \<le> 1"
    by (simp add: S_def)
  have "\<bar>msin seed - sin seed\<bar> \<le> doubleSlack"
    using sin by (simp add: sinAccurate_def)
  moreover have "\<bar>sin seed - S\<bar> \<le> 5 * doubleSlack"
    unfolding S_def using sin_lipschitz [of seed "c * 100 + h * 50 + n * 25"] seed by linarith
  ultimately have ms: "\<bar>msin seed - S\<bar> \<le> 6 * doubleSlack"
    by linarith
  have "\<bar>msin seed * 5\<bar> \<le> 256"
    using ms S s by linarith
  then have "\<bar>factor - msin seed * 5\<bar> \<le> doubleSlack"
    unfolding factor_def by (rule fl_near)
  then have factor: "\<bar>factor - S * 5\<bar> \<le> 31 * doubleSlack"
    using ms by linarith
  have mag: "0 \<le> c * 50" "c * 50 \<le> 50" "0 \<le> h * 30" "h * 30 \<le> 30" "0 \<le> n * 15" "n * 15 \<le> 15"
    "0 \<le> su * 10" "su * 10 \<le> 10" "0 \<le> sa * 20" "sa * 20 \<le> 20" "0 \<le> an * 25" "an * 25 \<le> 25"
    using fl_times(2,3) [OF u(1), of 50] fl_times(2,3) [OF u(2), of 30] fl_times(2,3) [OF u(3), of 15]
      fl_times(2,3) [OF u(4), of 10] fl_times(2,3) [OF u(5), of 20] fl_times(2,3) [OF u(6), of 25]
    by simp_all
  have a1: "\<bar>fl (base + bonus) - (c * 50 + (h * 30 + n * 15 + su * 10))\<bar> \<le> 7 * doubleSlack"
    using fl_sum [OF base bonus] mag s by simp
  have a2: "\<bar>fl (fl (base + bonus) - penalty)
      - (c * 50 + (h * 30 + n * 15 + su * 10) - (sa * 20 + an * 25))\<bar> \<le> 11 * doubleSlack"
    using fl_diff [OF a1 penalty] mag s by simp
  have a3: "\<bar>tot - (c * 50 + (h * 30 + n * 15 + su * 10) - (sa * 20 + an * 25) + S * 5)\<bar>
      \<le> 43 * doubleSlack"
    unfolding tot_def using fl_sum [OF a2 factor] mag S s by simp
  have spec: "totalScore_spec d = c * 50 + (h * 30 + n * 15 + su * 10) - (sa * 20 + an * 25) + S * 5"
    by (simp add: totalScore_spec_def Let_def c_def h_def n_def su_def sa_def an_def S_def)
  have code: "calculateRawFundabilityScore_double msin (Some d) = Math_round (max 0 (min 100 tot))"
    by (simp add: calculateRawFundabilityScore_double_def Let_def tot_def base_def bonus_def
        penalty_def factor_def seed_def c_def h_def n_def su_def sa_def an_def)
  show ?thesis
    using a3 code by (intro exI [of _ tot]) (simp add: spec)
qed


lemma Math_round_stable:
  assumes "\<bar>a - b\<bar> < 1 / 10 ^ 11" and "farFromTie b"
  shows "Math_round a = of_int (round b)"
proof -
  define k where "k = \<lfloor>b + 1 / 2\<rfloor>"
  have frac: "frac (b + 1 / 2) = b + 1 / 2 - of_int k"
    by (simp add: frac_def k_def)
  have "of_int k < a + 1 / 2" "a + 1 / 2 < of_int k + 1"
    using assms unfolding farFromTie_def frac by linarith+
  then have "\<lfloor>a + 1 / 2\<rfloor> = k"
    by (intro floor_unique) simp_all
  then show ?thesis
    by (simp add: Math_round_def round_def k_def)
qed

lemma clamp_close:
  assumes "\<bar>a - b\<bar> \<le> e"
  shows "\<bar>max 0 (min 100 a) - clamp b 0 100\<bar> \<le> e"
  using assms by (auto simp: clamp_def max_def min_def)

lemma sinAccurate_rounded: "sinAccurate Math_sin_rounded"
  unfolding sinAccurate_def Math_sin_rounded_def
proof
  fix x :: real
  have "\<bar>sin x\<bar> \<le> 256"
    using abs_sin_le_one [of x] by linarith
  then show "\<bar>fl (sin x) - sin x\<bar> \<le> doubleSlack"
    by (rule fl_near)
qed

lemma double_agrees:
  assumes "sinAccurate msin" and "validSnapshot d"
    and "farFromTie (clamp (totalScore_spec d) 0 100)"
  shows "calculateRawFundabilityScore_double msin (Some d) = rawScore_spec d"
proof -
  obtain tot where tot:
    "calculateRawFundabilityScore_double msin (Some d) = Math_round (max 0 (min 100 tot))"
    "\<bar>tot - totalScore_spec d\<bar> \<le> 43 * doubleSlack"
    using total_close [OF assms(1,2)] by blast
  have "\<bar>max 0 (min 100 tot) - clamp (totalScore_spec d) 0 100\<bar> \<le> 43 * doubleSlack"
    using tot(2) by (rule clamp_close)
  then have "\<bar>max 0 (min 100 tot) - clamp (totalScore_spec d) 0 100\<bar> < 1 / 10 ^ 11"
    using doubleSlack_tolerance by linarith
  then show ?thesis
    unfolding tot(1) rawScore_spec_def using assms(3) by (rule Math_round_stable)
qed


lemma fl_unit:
  assumes "inUnit x"
  shows "\<bar>fl x - x\<bar> \<le> doubleSlack"
  using assms by (intro fl_near) (simp add: inUnit_def)

lemma total_sample:
  assumes "\<bar>c - 9 / 10\<bar> \<le> doubleSlack" and "\<bar>h - 8 / 10\<bar> \<le> doubleSlack"
    and "\<bar>n - 1 / 10\<bar> \<le> doubleSlack"
  shows "727 / 10 \<le> c * 50 + h * 30 + n * 15 + sin (c * 100 + h * 50 + n * 25) * 5"
    and "c * 50 + h * 30 + n * 15 + sin (c * 100 + h * 50 + n * 25) * 5 \<le> 7345 / 100"
proof -
  note b = doubleSlack_bounds
  have "13249 / 100 \<le> c * 100 + h * 50 + n * 25" "c * 100 + h * 50 + n * 25 \<le> 13251 / 100"
    using assms b by linarith+
  then have "9 / 20 \<le> sin (c * 100 + h * 50 + n * 25)" "sin (c * 100 + h * 50 + n * 25) \<le> 29 / 50"
    by (rule sin_near_sample)+
  then show "727 / 10 \<le> c * 50 + h * 30 + n * 15 + sin (c * 100 + h * 50 + n * 25) * 5"
    and "c * 50 + h * 30 + n * 15 + sin (c * 100 + h * 50 + n * 25) * 5 \<le> 7345 / 100"
    using assms b by linarith+
qed

lemma asDouble_smiling:
  "validSnapshot (asDouble smiling)"
  "727 / 10 \<le> totalScore_spec (asDouble smiling)" "totalScore_spec (asDouble smiling) \<le> 7345 / 100"
proof -
  note b = doubleSlack_bounds
  have c: "\<bar>fl (9 / 10) - 9 / 10\<bar> \<le> doubleSlack" and h: "\<bar>fl (8 / 10) - 8 / 10\<bar> \<le> doubleSlack"
    and n: "\<bar>fl (1 / 10) - 1 / 10\<bar> \<le> doubleSlack"
    by (rule fl_unit, simp add: inUnit_def)+
  have "inUnit (fl (9 / 10))" "inUnit (fl (8 / 10))" "inUnit (fl (1 / 10))"
    unfolding inUnit_def using c h n b by linarith+
  then show "validSnapshot (asDouble smiling)"
    by (simp add: validSnapshot_def asDouble_def smiling_def) (simp add: inUnit_def)
  show "727 / 10 \<le> totalScore_spec (asDouble smiling)"
    and "totalScore_spec (asDouble smiling) \<le> 7345 / 100"
    using total_sample [OF c h n]
    by (simp_all add: totalScore_spec_def asDouble_def smiling_def Let_def)
qed

lemma double_smiling:
  assumes "sinAccurate msin"
  shows "calculateRawFundabilityScore_double msin (Some (asDouble smiling)) = 73"
proof -
  obtain tot where tot:
    "calculateRawFundabilityScore_double msin (Some (asDouble smiling))
       = Math_round (max 0 (min 100 tot))"
    "\<bar>tot - totalScore_spec (asDouble smiling)\<bar> \<le> 43 * doubleSlack"
    using total_close [OF assms asDouble_smiling(1)] by blast
  note b = doubleSlack_bounds
  have range: "145 / 2 \<le> tot" "tot < 147 / 2"
    using tot(2) asDouble_smiling(2,3) b by linarith+
  then have "max 0 (min 100 tot) = tot"
    by simp
  moreover have "Math_round tot = of_int 73"
    using range by (intro Math_round_eq) simp_all
  ultimately show ?thesis
    by (simp add: tot(1))
qed

lemma round_between:
  assumes "145 / 2 \<le> x" and "x < 147 / 2"
  shows "of_int (round (clamp x 0 100)) = (73::real)"
proof -
  have "clamp x 0 100 = x"
    using assms by (simp add: clamp_def)
  moreover have "\<lfloor>x + 1 / 2\<rfloor> = 73"
    using assms by (intro floor_unique) simp_all
  ultimately show ?thesis
    by (simp add: round_def)
qed

lemma spec_smiling:
  "rawScore_spec (asDouble smiling) = 73" "rawScore_spec smiling = 73"
proof -
  show "rawScore_spec (asDouble smiling) = 73"
    unfolding rawScore_spec_def using asDouble_smiling(2,3) by (intro round_between) linarith+
  have "727 / 10 \<le> totalScore_spec smiling" "totalScore_spec smiling \<le> 7345 / 100"
    using total_sample [of "9 / 10" "8 / 10" "1 / 10"] doubleSlack_bounds
    by (simp_all add: totalScore_spec_def smiling_def Let_def)
  then show "rawScore_spec smiling = 73"
    unfolding rawScore_spec_def by (intro round_between) linarith+
qed

lemma fl_35: "fl (35 / 100) = tieDouble"
proof -
  have "fl (35 / 100) = 2 powi (- 2 - 52) * of_int (roundTiesToEven ((35 / 100) / 2 powi (- 2 - 52)))"
    by (rule fl_eval) (simp_all add: power_int_minus)
  also have "\<dots> = tieDouble"
    by (simp add: power_int_minus roundTiesToEven_def Let_def tieDouble_def)
  finally show ?thesis .
qed

lemma fl_tie_times_10: "fl (tieDouble * 10) = 7 / 2"
proof -
  have "fl (tieDouble * 10) =
      2 powi (1 - 52) * of_int (roundTiesToEven ((tieDouble * 10) / 2 powi (1 - 52)))"
    by (rule fl_eval) (simp_all add: power_int_minus tieDouble_def)
  also have "\<dots> = 7 / 2"
    by (simp add: power_int_minus roundTiesToEven_def Let_def tieDouble_def)
  finally show ?thesis .
qed

lemma fl_7_halves: "fl (7 / 2) = 7 / 2"
proof -
  have "fl (7 / 2) = 2 powi (1 - 52) * of_int (roundTiesToEven ((7 / 2) / 2 powi (1 - 52)))"
    by (rule fl_eval) (simp_all add: power_int_minus)
  also have "\<dots> = 7 / 2"
    by (simp add: power_int_minus roundTiesToEven_def Let_def)
  finally show ?thesis .
qed

text \<open>
  Claim C4, as amended.  For every snapshot with confidence and every probability between
  0 and 1, \<^verbatim>\<open>calculateRawFundabilityScore\<close>, evaluated in double precision as the program
  evaluates it, with any sine accurate to \<open>2 powi (- 45)\<close>, returns the value of the
  specification's formula (the sum \<open>confidence * 50 + happy * 30 + neutral * 15 +
  surprised * 10 - sad * 20 - angry * 25 + sin (confidence * 100 + happy * 50 + neutral * 25)
  * 5\<close> over the reals, clamped to 0..100 and rounded) whenever the clamped sum is more than
  \<open>1 / 10 ^ 11\<close> away from every half-integer.  For the snapshot with confidence 0.9, happy
  0.8, neutral 0.1 and nothing else, held in doubles, it returns 73, which is the value of
  the formula on that snapshot, in doubles or not.
\<close>

theorem raw_score_double_formula:
  assumes "sinAccurate msin"
  shows "(validSnapshot d \<and> farFromTie (clamp (totalScore_spec d) 0 100) \<longrightarrow>
            calculateRawFundabilityScore_double msin (Some d) = rawScore_spec d) \<and>
         calculateRawFundabilityScore_double msin (Some (asDouble smiling)) = 73 \<and>
         rawScore_spec (asDouble smiling) = 73 \<and>
         rawScore_spec smiling = 73"
  using double_agrees [OF assms, of d] double_smiling [OF assms] spec_smiling
  by blast

theorem raw_score_double_formula_witness:
  "sinAccurate Math_sin_rounded \<and>
   validSnapshot halfSurprised \<and>
   farFromTie (clamp (totalScore_spec halfSurprised) 0 100) \<and>
   rawScore_spec halfSurprised = 5 \<and>
   calculateRawFundabilityScore_double Math_sin_rounded (Some halfSurprised) = 5 \<and>
   calculateRawFundabilityScore_double Math_sin_rounded (Some (asDouble smiling)) = 73"
proof -
  have valid: "validSnapshot halfSurprised"
    by (simp add: validSnapshot_def halfSurprised_def inUnit_def)
  have total: "totalScore_spec halfSurprised = 5"
    by (simp add: totalScore_spec_def halfSurprised_def)
  have far: "farFromTie (clamp (totalScore_spec halfSurprised) 0 100)"
    by (simp add: total clamp_def farFromTie_def frac_def)
  have spec: "rawScore_spec halfSurprised = 5"
    by (simp add: rawScore_spec_def total clamp_def)
  show ?thesis
    using sinAccurate_rounded valid far spec
      raw_score_double_formula [OF sinAccurate_rounded, of halfSurprised]
    by simp
qed

text \<open>
  The claim without the amendment fails on the snapshot whose only nonzero field is a
  surprise of the double nearest to 0.35.  The exact product with 10 lies just below 3.5 and
  the formula gives 3; the program rounds the product to the double 3.5, a tie, and
  \<^verbatim>\<open>Math.round\<close> gives 4.  The sine is taken at 0, where it is 0.
\<close>

theorem raw_score_tie_counterexample:
  "validSnapshot tieSnapshot \<and>
   surprised (expressions tieSnapshot) = fl (35 / 100) \<and>
   calculateRawFundabilityScore_double Math_sin_rounded (Some tieSnapshot) = 4 \<and>
   rawScore_spec tieSnapshot = 3"
proof -
  have valid: "validSnapshot tieSnapshot"
    by (simp add: tieSnapshot_def validSnapshot_def inUnit_def tieDouble_def)
  have double: "surprised (expressions tieSnapshot) = fl (35 / 100)"
    unfolding fl_35 by (simp add: tieSnapshot_def)
  have code: "calculateRawFundabilityScore_double Math_sin_rounded (Some tieSnapshot) = 4"
    by (simp add: tieSnapshot_def calculateRawFundabilityScore_double_def Math_sin_rounded_def
        fl_tie_times_10 fl_7_halves Math_round_def)
  have spec: "rawScore_spec tieSnapshot = 3"
    by (simp add: tieSnapshot_def rawScore_spec_def totalScore_spec_def clamp_def round_def
        tieDouble_def)
  show ?thesis
    using valid double code spec by blast
qed

lemma target_score_bounds:
  "15 \<le> calculateDeterministicTargetScore i d \<and> calculateDeterministicTargetScore i d \<le> 90"
  using Math_round_clamp [of 15 90]
  by (simp add: calculateDeterministicTargetScore_def Let_def)

lemma target_attributes_bounds:
  "10 \<le> charisma (calculateDeterministicAttributeTargets ia d) \<and>
   charisma (calculateDeterministicAttributeTargets ia d) \<le> 95 \<and>
   5 \<le> dumbness (calculateDeterministicAttributeTargets ia d) \<and>
   dumbness (calculateDeterministicAttributeTargets ia d) \<le> 90 \<and>
   15 \<le> single (calculateDeterministicAttributeTargets ia d) \<and>
   single (calculateDeterministicAttributeTargets ia d) \<le> 95"
  using Math_round_clamp [of 10 95] Math_round_clamp [of 5 90] Math_round_clamp [of 15 95]
  by (simp add: calculateDeterministicAttributeTargets_def Let_def)

text \<open>
  Claim C6.  For every initial score and every snapshot the target score lies in 15..90,
  and for every initial attribute set and every snapshot the target attributes lie in
  their own ranges: charisma in 10..95, dumbness in 5..90, single in 15..95.
\<close>

theorem targets_within_clamps:
  "15 \<le> calculateDeterministicTargetScore initialScore d \<and>
   calculateDeterministicTargetScore initialScore d \<le> 90 \<and>
   10 \<le> charisma (calculateDeterministicAttributeTargets initialAttrs d) \<and>
   charisma (calculateDeterministicAttributeTargets initialAttrs d) \<le> 95 \<and>
   5 \<le> dumbness (calculateDeterministicAttributeTargets initialAttrs d) \<and>
   dumbness (calculateDeterministicAttributeTargets initialAttrs d) \<le> 90 \<and>
   15 \<le> single (calculateDeterministicAttributeTargets initialAttrs d) \<and>
   single (calculateDeterministicAttributeTargets initialAttrs d) \<le> 95"
  using target_score_bounds [of initialScore d] target_attributes_bounds [of initialAttrs d]
  by simp

section \<open>Feedback bands\<close>

lemma some_band:
  assumes "x \<in> \<int>" and "0 \<le> x" and "x \<le> 100"
  shows "\<exists>fb \<in> set feedbackMessages. inBand x fb"
proof -
  from assms(1) obtain n :: int where n: "x = of_int n"
    by (auto elim: Ints_cases)
  with assms(2,3) have "0 \<le> n" "n \<le> 100"
    by simp_all
  then consider "n \<le> 20" | "21 \<le> n \<and> n \<le> 40" | "41 \<le> n \<and> n \<le> 60"
    | "61 \<le> n \<and> n \<le> 80" | "81 \<le> n \<and> n \<le> 95" | "96 \<le> n"
    by linarith
  then show ?thesis
    using \<open>0 \<le> n\<close> \<open>n \<le> 100\<close>
    by cases (simp_all add: feedbackMessages_def inBand_def n)
qed

lemma band_messages:
  "fb \<in> set feedbackMessages \<Longrightarrow> message fb \<noteq> [] \<and> message fb \<noteq> ''Analyzing...''"
  by (auto simp: feedbackMessages_def)

lemma intervalCallback_feedback:
  "list_all (\<lambda>u. newFeedback u = getFeedbackMessage (newScore u)) (snd (intervalCallback r t s))"
  by (simp add: intervalCallback_def sendFinal_def sendAnimated_def Let_def
      split: inference.splits list.splits option.splits)

text \<open>
  Claim C9.  There are six bands.  For every integer score from 0 to 100,
  \<^verbatim>\<open>getFeedbackMessage\<close> returns the message of the first band of the table that holds
  the score (no band before it holds the score), and that message is not the default
  \<open>Analyzing...\<close>.  The feedback of every call of \<^verbatim>\<open>onScoreUpdate\<close> is the result of
  \<^verbatim>\<open>getFeedbackMessage\<close> on the score of that call.
\<close>

theorem feedback_is_first_band:
  assumes "x \<in> \<int>" and "0 \<le> x" and "x \<le> 100"
  shows "length feedbackMessages = 6 \<and>
         (\<exists>i < length feedbackMessages.
            inBand x (feedbackMessages ! i) \<and>
            (\<forall>j < i. \<not> inBand x (feedbackMessages ! j)) \<and>
            getFeedbackMessage x = message (feedbackMessages ! i)) \<and>
         getFeedbackMessage x \<noteq> ''Analyzing...'' \<and>
         list_all (\<lambda>u. newFeedback u = getFeedbackMessage (newScore u))
           (snd (intervalCallback r t s))"
proof -
  have "find (inBand x) feedbackMessages \<noteq> None"
    using some_band [OF assms] by (auto simp: find_None_iff)
  then obtain fb where fb: "find (inBand x) feedbackMessages = Some fb"
    by blast
  then obtain i where i: "i < length feedbackMessages" "inBand x (feedbackMessages ! i)"
      "fb = feedbackMessages ! i" "\<forall>j < i. \<not> inBand x (feedbackMessages ! j)"
    unfolding find_Some_iff by blast
  have "fb \<in> set feedbackMessages"
    using i(1,3) by simp
  then have msg: "message fb \<noteq> [] \<and> message fb \<noteq> ''Analyzing...''"
    by (rule band_messages)
  have res: "getFeedbackMessage x = message fb"
    using fb msg unfolding getFeedbackMessage_def inBand_def [abs_def] by simp
  have six: "length feedbackMessages = 6"
    by (simp add: feedbackMessages_def)
  from i res msg six intervalCallback_feedback [of r t s] show ?thesis
    by auto
qed

theorem feedback_is_first_band_witness:
  "(73::real) \<in> \<int> \<and> (0::real) \<le> 73 \<and> (73::real) \<le> 100 \<and>
   inBand 73 (feedbackMessages ! 3) \<and>
   getFeedbackMessage 73 = ''Not bad! You could raise a decent seed round.'' \<and>
   getFeedbackMessage 73 \<noteq> ''Analyzing...''"
  using feedback_is_first_band [of 73]
  by (simp add: getFeedbackMessage_def feedbackMessages_def inBand_def)

section \<open>The sampling session\<close>

lemma snd_runInterval_Cons:
  "snd (runInterval r s (t # ts)) =
     snd (intervalCallback r t s) @ snd (runInterval r (fst (intervalCallback r t s)) ts)"
  by (simp add: split_beta)

lemma fst_runInterval_Cons:
  "fst (runInterval r s (t # ts)) = fst (runInterval r (fst (intervalCallback r t s)) ts)"
  by (simp add: split_beta)

lemma startFaceDetection_clears: "startFaceDetection s = mounted"
  by (simp add: startFaceDetection_def mounted_def)

lemma session_restarted:
  "runInterval (render_of mounted) (startFaceDetection s) ts = session ts"
  by (simp add: session_def startFaceDetection_clears)

subsection \<open>Ticks without a detection\<close>

lemma intervalCallback_noFace: "noFace t \<Longrightarrow> intervalCallback r t s = (s, [])"
  by (auto simp: noFace_def intervalCallback_def)

lemma runInterval_noFace: "list_all noFace ts \<Longrightarrow> runInterval r s ts = (s, [])"
  by (induction ts arbitrary: s) (simp_all add: intervalCallback_noFace)

text \<open>
  Claim C8.  A poll tick whose inference yields no detection, or throws, leaves the state
  and the refs of the session as they were and calls \<^verbatim>\<open>onScoreUpdate\<close> not at all,
  whatever the render of the callback and whatever the state.  So does any run of such
  ticks; in particular, after \<^verbatim>\<open>startFaceDetection\<close> such a run leaves the session in
  its cleared state, with no start time, no initial or target value and no call of the
  consumer.
\<close>

theorem no_detection_no_transition:
  assumes "noFace t" and "list_all noFace ts"
  shows "intervalCallback r t s = (s, []) \<and>
         runInterval r s ts = (s, []) \<and>
         session ts = (startFaceDetection mounted, []) \<and>
         startFaceDetection mounted = mounted"
  using assms
  by (simp add: intervalCallback_noFace runInterval_noFace session_def)
     (simp add: startFaceDetection_def mounted_def)

theorem no_detection_no_transition_witness:
  "noFace (emptyTick 1000) \<and> list_all noFace emptyTicks \<and> length emptyTicks = 53 \<and>
   intervalCallback runningRender (emptyTick 1000) runningState = (runningState, []) \<and>
   runInterval runningRender runningState emptyTicks = (runningState, []) \<and>
   session emptyTicks = (mounted, [])"
proof -
  have one: "noFace (emptyTick 1000)"
    by (simp add: noFace_def emptyTick_def)
  have all: "list_all noFace emptyTicks"
    by (simp add: emptyTicks_def list_all_iff noFace_def emptyTick_def)
  show ?thesis
    using no_detection_no_transition [OF one all, of runningRender runningState] one all
    by (simp add: emptyTicks_def)
qed

subsection \<open>The guard on the finalized flag\<close>

text \<open>A callback whose render has bound the flag true returns at the guard.\<close>

lemma intervalCallback_finalized:
  "seen_finalScoreCalculated r \<Longrightarrow> intervalCallback r t s = (s, [])"
  by (simp add: intervalCallback_def split: inference.splits list.splits)

lemma runInterval_finalized:
  "seen_finalScoreCalculated r \<Longrightarrow> runInterval r s ts = (s, [])"
  by (induction ts arbitrary: s) (simp_all add: intervalCallback_finalized)


subsection \<open>Emitted values\<close>

lemma inRange_raw: "inRange (calculateRawFundabilityScore x)"
  using inRange_round_clamp
  by (cases x) (simp_all add: calculateRawFundabilityScore_def Let_def inRange_def)

lemma inRange_attributes: "attributesInRange (calculateAttributes d)"
  by (simp add: calculateAttributes_def Let_def attributesInRange_def inRange_round_clamp)

lemma inRange_target: "inRange (calculateDeterministicTargetScore i d)"
  using target_score_bounds [of i d]
  by (intro inRangeI [of _ 15 90])
     (simp_all add: calculateDeterministicTargetScore_def Let_def Math_round_Ints)

lemma inRange_attribute_targets: "attributesInRange (calculateDeterministicAttributeTargets ia d)"
  unfolding attributesInRange_def
proof (intro conjI)
  show "inRange (charisma (calculateDeterministicAttributeTargets ia d))"
    using target_attributes_bounds [of ia d]
    by (intro inRangeI [of _ 10 95])
       (simp_all add: calculateDeterministicAttributeTargets_def Let_def Math_round_Ints)
  show "inRange (dumbness (calculateDeterministicAttributeTargets ia d))"
    using target_attributes_bounds [of ia d]
    by (intro inRangeI [of _ 5 90])
       (simp_all add: calculateDeterministicAttributeTargets_def Let_def Math_round_Ints)
  show "inRange (single (calculateDeterministicAttributeTargets ia d))"
    using target_attributes_bounds [of ia d]
    by (intro inRangeI [of _ 15 95])
       (simp_all add: calculateDeterministicAttributeTargets_def Let_def Math_round_Ints)
qed

text \<open>A blend of two values of the data model, at a progress between 0 and 1, is one.\<close>

lemma inRange_blend:
  assumes "inRange a" and "inRange b" and "0 \<le> p" and "p \<le> 1"
  shows "inRange (Math_round (a + (b - a) * p))"
proof -
  have eq: "a + (b - a) * p = (1 - p) * a + p * b"
    by (simp add: algebra_simps)
  have a: "0 \<le> a" "a \<le> 100" and b: "0 \<le> b" "b \<le> 100"
    using assms(1,2) by (simp_all add: inRange_def)
  have "0 \<le> (1 - p) * a + p * b"
    using assms(3,4) a(1) b(1) by simp
  moreover have "(1 - p) * a + p * b \<le> (1 - p) * 100 + p * 100"
    using assms(3,4) a(2) b(2) by (intro add_mono mult_left_mono) simp_all
  then have "(1 - p) * a + p * b \<le> 100"
    by (simp add: algebra_simps)
  ultimately show ?thesis
    using Math_round_bounds [of 0 "a + (b - a) * p" 100]
    by (simp add: eq inRange_def Math_round_Ints)
qed

lemma inRange_interpolate:
  assumes "attributesInRange a" and "attributesInRange b" and "0 \<le> p" and "p \<le> 1"
  shows "attributesInRange (interpolateAttributes a b p)"
  using assms by (simp add: attributesInRange_def interpolateAttributes_def inRange_blend)

lemma refsInRange_initializeScores: "refsInRange (initializeScores t person s)"
  by (simp add: refsInRange_def initializeScores_def Let_def inRange_raw inRange_attributes
      inRange_target inRange_attribute_targets)

lemma sendFinal_inRange:
  assumes "refsInRange s"
  shows "refsInRange (fst (sendFinal person s)) \<and> list_all updateInRange (snd (sendFinal person s))"
proof -
  have "inRange (case finalAnimatedTargetScoreRef s of
                   Some v \<Rightarrow> v | None \<Rightarrow> calculateRawFundabilityScore (Some person))"
    using assms by (cases "finalAnimatedTargetScoreRef s") (simp_all add: refsInRange_def inRange_raw)
  moreover have "attributesInRange (case finalAttributesRef s of
                   Some a \<Rightarrow> a | None \<Rightarrow> calculateAttributes person)"
    using assms by (cases "finalAttributesRef s") (simp_all add: refsInRange_def inRange_attributes)
  moreover have "refsInRange (s\<lparr>finalScoreCalculated := True\<rparr>)"
    using assms by (simp add: refsInRange_def)
  ultimately show ?thesis
    by (simp add: sendFinal_def Let_def updateInRange_def)
qed

lemma sendAnimated_inRange:
  assumes "refsInRange s" and "0 \<le> e"
  shows "list_all updateInRange (sendAnimated e s)"
proof (cases "sendAnimated e s = []")
  case True
  then show ?thesis by simp
next
  case False
  then obtain i f ia fa where refs: "initialAnimatedScoreRef s = Some i"
      "finalAnimatedTargetScoreRef s = Some f" "initialAttributesRef s = Some ia"
      "finalAttributesRef s = Some fa"
    by (auto simp: sendAnimated_def split: option.splits)
  have p: "0 \<le> min 1 (e / ANALYSIS_DURATION_MS)" "min 1 (e / ANALYSIS_DURATION_MS) \<le> 1"
    using assms(2) by (simp_all add: ANALYSIS_DURATION_MS_def)
  have "attributesInRange ia" "attributesInRange fa"
    using assms(1) refs by (simp_all add: refsInRange_def)
  then have "attributesInRange (interpolateAttributes ia fa (min 1 (e / ANALYSIS_DURATION_MS)))"
    using p by (rule inRange_interpolate)
  then show ?thesis
    by (simp add: sendAnimated_def refs Let_def updateInRange_def inRange_round_clamp)
qed

lemma intervalCallback_inRange:
  assumes "refsInRange s" and "0 \<le> timeElapsed r t"
  shows "list_all updateInRange (snd (intervalCallback r t s)) \<and>
         refsInRange (fst (intervalCallback r t s))"
proof -
  have s1: "refsInRange (if seen_analysisStartTime r = None then initializeScores t person s else s)"
    for person
    using assms(1) by (simp add: refsInRange_initializeScores)
  show ?thesis
    using assms sendFinal_inRange [OF s1] sendAnimated_inRange [OF s1 assms(2)] s1
    by (simp add: intervalCallback_def Let_def split: inference.splits list.splits)
qed

lemma runInterval_inRange:
  assumes "refsInRange s" and "list_all (\<lambda>t. 0 \<le> timeElapsed r t) ts"
  shows "list_all updateInRange (snd (runInterval r s ts))"
  using assms
proof (induction ts arbitrary: s)
  case Nil
  then show ?case by simp
next
  case (Cons t ts)
  have step: "list_all updateInRange (snd (intervalCallback r t s)) \<and>
              refsInRange (fst (intervalCallback r t s))"
    using intervalCallback_inRange [of s r t] Cons.prems by simp
  then have "list_all updateInRange (snd (runInterval r (fst (intervalCallback r t s)) ts))"
    using Cons.IH Cons.prems by simp
  with step show ?case
    by (simp only: snd_runInterval_Cons list_all_append simp_thms)
qed

lemma timeElapsed_mounted: "timeElapsed (render_of mounted) t = 0"
  by (simp add: timeElapsed_def render_of_def mounted_def)

lemma refsInRange_startFaceDetection: "refsInRange (startFaceDetection s)"
  by (simp add: refsInRange_def startFaceDetection_def)

lemma session_inRange: "list_all updateInRange (snd (session ts))"
  unfolding session_def
  by (rule runInterval_inRange)
     (simp_all add: refsInRange_startFaceDetection timeElapsed_mounted list_all_iff)

text \<open>
  Claim C5.  For every snapshot, whatever its confidence and probabilities, the raw score
  and the three raw attributes are integers from 0 to 100.  Every value the session hands to
  \<^verbatim>\<open>onScoreUpdate\<close>, the score and each attribute, is an integer from 0 to 100: this
  holds for the callback of any render, on the interpolated and on the final path, when
  the refs hold values of the data model and the clock reading is not before the start
  time the callback has bound, and the callback leaves the refs so; \<^verbatim>\<open>startFaceDetection\<close>
  leaves the refs so; and it holds for every call made in a session, on any ticks.
\<close>

theorem emitted_values_in_range:
  "inRange (calculateRawFundabilityScore (Some d)) \<and>
   attributesInRange (calculateAttributes d) \<and>
   (refsInRange s \<and> 0 \<le> timeElapsed r t \<longrightarrow>
      list_all updateInRange (snd (intervalCallback r t s)) \<and>
      refsInRange (fst (intervalCallback r t s))) \<and>
   refsInRange (startFaceDetection s) \<and>
   list_all updateInRange (snd (session ts))"
  using inRange_raw [of "Some d"] inRange_attributes [of d] intervalCallback_inRange [of s r t]
    refsInRange_startFaceDetection [of s] session_inRange [of ts]
  by blast

theorem emitted_values_in_range_witness:
  "refsInRange runningState \<and>
   0 \<le> timeElapsed runningRender (faceTick 3500 smiling) \<and>
   0 \<le> timeElapsed runningRender (faceTick 6000 smiling) \<and>
   map newScore (snd (intervalCallback runningRender (faceTick 3500 smiling) runningState)) = [66] \<and>
   map isFinal (snd (intervalCallback runningRender (faceTick 3500 smiling) runningState)) = [False] \<and>
   list_all updateInRange (snd (intervalCallback runningRender (faceTick 3500 smiling) runningState)) \<and>
   map newScore (snd (intervalCallback runningRender (faceTick 6000 smiling) runningState)) = [59] \<and>
   map isFinal (snd (intervalCallback runningRender (faceTick 6000 smiling) runningState)) = [True] \<and>
   list_all updateInRange (snd (intervalCallback runningRender (faceTick 6000 smiling) runningState))"
proof -
  have refs: "refsInRange runningState"
    by (simp add: refsInRange_def runningState_def attributesInRange_def inRange_def)
  have early: "timeElapsed runningRender (faceTick 3500 smiling) = 2500"
    and late: "timeElapsed runningRender (faceTick 6000 smiling) = 5000"
    by (simp_all add: timeElapsed_def runningRender_def faceTick_def)
  have animated:
    "map newScore (snd (intervalCallback runningRender (faceTick 3500 smiling) runningState)) = [66]"
    "map isFinal (snd (intervalCallback runningRender (faceTick 3500 smiling) runningState)) = [False]"
    by (simp_all add: intervalCallback_def timeElapsed_def ANALYSIS_DURATION_MS_def
        sendAnimated_def Let_def Math_round_def runningRender_def faceTick_def runningState_def)
  have final:
    "map newScore (snd (intervalCallback runningRender (faceTick 6000 smiling) runningState)) = [59]"
    "map isFinal (snd (intervalCallback runningRender (faceTick 6000 smiling) runningState)) = [True]"
    by (simp_all add: intervalCallback_def timeElapsed_def ANALYSIS_DURATION_MS_def
        sendFinal_def Let_def runningRender_def faceTick_def runningState_def)
  show ?thesis
    using refs animated final
      emitted_values_in_range [of smiling runningState runningRender "faceTick 3500 smiling" "[]"]
      emitted_values_in_range [of smiling runningState runningRender "faceTick 6000 smiling" "[]"]
    by (simp add: early late)
qed

subsection \<open>The callback of the mounting render\<close>

text \<open>
  The render that creates the interval callback has bound \<^verbatim>\<open>analysisStartTime\<close> to
  \<^verbatim>\<open>null\<close> and \<^verbatim>\<open>finalScoreCalculated\<close> to \<^verbatim>\<open>false\<close>.  On a tick with a face its
  callback therefore takes the initialisation branch, computes an elapsed time of zero and
  sends the initial values as a non-final update.
\<close>

lemma sendAnimated_initialized:
  "sendAnimated 0 (initializeScores t person s) =
    [\<lparr>newScore = calculateRawFundabilityScore (Some person),
      newFeedback = getFeedbackMessage (calculateRawFundabilityScore (Some person)),
      isFinal = False,
      newAttributes = Some (interpolateAttributes (calculateAttributes person)
        (calculateDeterministicAttributeTargets (calculateAttributes person) person) 0)\<rparr>]"
  by (simp add: sendAnimated_def initializeScores_def Let_def Math_round_inRange inRange_raw)

lemma intervalCallback_mounted:
  assumes "videoPlaying t" and "context2d t" and "detectAllFaces t = Faces (person # others)"
  shows "intervalCallback (render_of mounted) t s =
          (initializeScores t person s, sendAnimated 0 (initializeScores t person s))"
  using assms
  by (simp add: intervalCallback_def timeElapsed_mounted ANALYSIS_DURATION_MS_def Let_def)
     (simp add: render_of_def mounted_def)

lemma intervalCallback_faceTick:
  "intervalCallback (render_of mounted) (faceTick now person) s =
     (initializeScores (faceTick now person) person s,
      sendAnimated 0 (initializeScores (faceTick now person) person s))"
  by (rule intervalCallback_mounted) (simp_all add: faceTick_def)

lemma runInterval_faceTicks:
  "snd (runInterval (render_of mounted) s (map (\<lambda>k. faceTick (f k) person) ks)) =
     replicate (length ks) (hd (sendAnimated 0 (initializeScores (faceTick 0 person) person s)))"
  by (induction ks arbitrary: s)
     (simp_all add: intervalCallback_faceTick sendAnimated_initialized split_beta)

lemma finalScoreCalculated_mounted:
  "finalScoreCalculated (fst (runInterval (render_of mounted) s ts)) = finalScoreCalculated s"
proof (induction ts arbitrary: s)
  case Nil
  then show ?case by simp
next
  case (Cons t ts)
  have "finalScoreCalculated (fst (intervalCallback (render_of mounted) t s)) = finalScoreCalculated s"
    by (simp add: intervalCallback_def timeElapsed_mounted ANALYSIS_DURATION_MS_def
        initializeScores_def Let_def split: inference.splits list.splits)
  with Cons.IH show ?case
    by (simp add: split_beta)
qed

lemma intervalCallback_mounted_not_final:
  "list_all (\<lambda>u. \<not> isFinal u) (snd (intervalCallback (render_of mounted) t s))"
  by (simp add: intervalCallback_def timeElapsed_mounted ANALYSIS_DURATION_MS_def Let_def
      sendAnimated_def split: inference.splits list.splits option.splits)

lemma runInterval_mounted_not_final:
  "list_all (\<lambda>u. \<not> isFinal u) (snd (runInterval (render_of mounted) s ts))"
proof (induction ts arbitrary: s)
  case Nil
  then show ?case by simp
next
  case (Cons t ts)
  show ?case
    using intervalCallback_mounted_not_final [of t s]
      Cons.IH [of "fst (intervalCallback (render_of mounted) t s)"]
    by (simp only: snd_runInterval_Cons list_all_append simp_thms)
qed

subsection \<open>The life cycle installs no other callback\<close>

lemma staleClosures_mounted: "staleClosures componentMounted"
  by (simp add: staleClosures_def componentMounted_def mounted_def)

lemma finalScoreCalculated_intervalCallback_mounted:
  "finalScoreCalculated (fst (intervalCallback (render_of mounted) t s)) = finalScoreCalculated s"
  using finalScoreCalculated_mounted [of s "[t]"] by (simp add: split_beta)

lemma staleClosures_step:
  assumes "staleClosures c"
  shows "staleClosures (fst (componentStep e c)) \<and>
         list_all (\<lambda>u. \<not> isFinal u) (snd (componentStep e c))"
proof (cases e)
  case (ModelsLoaded v)
  then show ?thesis
    using assms
    by (cases v)
       (auto simp: staleClosures_def modelLoadedEffect_def callStartFaceDetection_def
          startFaceDetection_clears mounted_def)
next
  case Play
  then show ?thesis
    using assms
    by (auto simp: staleClosures_def callStartFaceDetection_def startFaceDetection_clears mounted_def
        split: option.splits)
next
  case (Interval t)
  show ?thesis
  proof (cases "interval c")
    case None
    then show ?thesis using assms Interval by simp
  next
    case (Some r)
    then have r: "r = render_of mounted"
      using assms by (simp add: staleClosures_def)
    have loaded: "isModelLoaded c"
      using assms Some by (auto simp: staleClosures_def)
    show ?thesis
      using assms Interval Some loaded intervalCallback_mounted_not_final [of t "hooks c"]
        finalScoreCalculated_intervalCallback_mounted [of t "hooks c"]
      by (simp add: r split_beta staleClosures_def)
  qed
qed

lemma staleClosures_run:
  assumes "staleClosures c"
  shows "staleClosures (fst (runComponent c es)) \<and>
         list_all (\<lambda>u. \<not> isFinal u) (snd (runComponent c es))"
  using assms
proof (induction es arbitrary: c)
  case Nil
  then show ?case by simp
next
  case (Cons e es)
  have step: "staleClosures (fst (componentStep e c)) \<and>
              list_all (\<lambda>u. \<not> isFinal u) (snd (componentStep e c))"
    using Cons.prems by (rule staleClosures_step)
  then have "staleClosures (fst (runComponent (fst (componentStep e c)) es)) \<and>
             list_all (\<lambda>u. \<not> isFinal u) (snd (runComponent (fst (componentStep e c)) es))"
    using Cons.IH by blast
  with step show ?case
    by (simp add: split_beta)
qed

lemma component_never_final:
  "list_all (\<lambda>u. \<not> isFinal u) (snd (runComponent componentMounted es)) \<and>
   finalScoreCalculated (hooks (fst (runComponent componentMounted es))) = False"
  using staleClosures_run [OF staleClosures_mounted, of es] by (simp add: staleClosures_def)

lemma component_session:
  "runComponent componentMounted (ModelsLoaded Ready # map Interval ts) =
     (\<lparr>hooks = fst (session ts), isModelLoaded = True, playListener = None,
       interval = Some (render_of mounted)\<rparr>, snd (session ts))"
proof -
  have run: "runComponent \<lparr>hooks = s, isModelLoaded = True, playListener = None,
               interval = Some (render_of mounted)\<rparr> (map Interval ts) =
             (\<lparr>hooks = fst (runInterval (render_of mounted) s ts), isModelLoaded = True,
               playListener = None, interval = Some (render_of mounted)\<rparr>,
              snd (runInterval (render_of mounted) s ts))" for s
    by (induction ts arbitrary: s) (simp_all add: split_beta)
  show ?thesis
    by (simp add: componentMounted_def modelLoadedEffect_def callStartFaceDetection_def
        run session_def)
qed

text \<open>
  Claim C1, on the session of the specification's scenario: a first detection, then the
  same face on every poll, 100 ms apart, until 5200 ms after the first.  The session makes
  53 calls of \<^verbatim>\<open>onScoreUpdate\<close>, one per tick.  None of them is final, each carries the
  initial score 73, and \<^verbatim>\<open>setFinalScoreCalculated(true)\<close> is never reached: the ticks
  at 5000 ms and later behave as the first one.  More generally no session, on any
  ticks, makes a final call or sets the flag, and neither does the component on any
  sequence of events of its life cycle.
\<close>

theorem steady_session_never_final:
  "list_all (\<lambda>u. \<not> isFinal u) (snd (runComponent componentMounted es)) \<and>
   finalScoreCalculated (hooks (fst (runComponent componentMounted es))) = False \<and>
   list_all (\<lambda>u. \<not> isFinal u) (snd (session ts)) \<and>
   finalScoreCalculated (fst (session ts)) = False \<and>
   length steadyTicks = 53 \<and>
   currentTime (steadyTicks ! 50) - currentTime (steadyTicks ! 0) = 5000 \<and>
   length (snd (session steadyTicks)) = 53 \<and>
   map isFinal (snd (session steadyTicks)) = replicate 53 False \<and>
   map newScore (snd (session steadyTicks)) = replicate 53 73 \<and>
   finalScoreCalculated (fst (session steadyTicks)) = False"
proof -
  have ticks: "length steadyTicks = 53"
    "currentTime (steadyTicks ! 50) - currentTime (steadyTicks ! 0) = 5000"
    by (simp_all add: steadyTicks_def faceTick_def)
  have calls: "snd (session steadyTicks) =
      replicate 53 (hd (sendAnimated 0
        (initializeScores (faceTick 0 smiling) smiling (startFaceDetection mounted))))"
    by (simp add: session_def steadyTicks_def runInterval_faceTicks)
  have flag: "finalScoreCalculated (fst (session steadyTicks)) = False"
    by (simp add: session_def finalScoreCalculated_mounted startFaceDetection_def)
  have never: "list_all (\<lambda>u. \<not> isFinal u) (snd (session ts))"
    unfolding session_def by (rule runInterval_mounted_not_final)
  have unset: "finalScoreCalculated (fst (session ts)) = False"
    by (simp add: session_def finalScoreCalculated_mounted startFaceDetection_def)
  show ?thesis
    using component_never_final [of es]
    by (simp add: never unset ticks calls flag sendAnimated_initialized raw_smiling)
qed

text \<open>
  Claim C2, on a session of two ticks with two different detections.  After the first tick
  the initial score is 73, the raw score of the first detection.  The second tick computes
  the initial and target values again, from the second detection: the initial score is
  then 71, the raw score of the second detection, and the update the second tick sends
  carries that value.  More generally a tick with a face replaces whatever the refs hold by
  the values computed from the face of that tick; and a session is what the component does
  once the models are loaded and the video is ready.
\<close>

theorem second_detection_recomputes:
  "snd (runComponent componentMounted (ModelsLoaded Ready # map Interval ts)) = snd (session ts) \<and>
   hooks (fst (runComponent componentMounted (ModelsLoaded Ready # map Interval ts))) =
     fst (session ts) \<and>
   fst (intervalCallback (render_of mounted) (faceTick now person) s) =
     initializeScores (faceTick now person) person s \<and>
   initialAnimatedScoreRef (fst (intervalCallback (render_of mounted) (faceTick now person) s)) =
     Some (calculateRawFundabilityScore (Some person)) \<and>
   initialAnimatedScoreRef (fst (session [faceTick 1000 smiling])) = Some 73 \<and>
   initialAnimatedScoreRef (fst (session [faceTick 1000 smiling, faceTick 1100 sadder])) = Some 71 \<and>
   finalAnimatedTargetScoreRef (fst (session [faceTick 1000 smiling, faceTick 1100 sadder])) =
     Some (calculateDeterministicTargetScore 71 sadder) \<and>
   initialAttributesRef (fst (session [faceTick 1000 smiling, faceTick 1100 sadder])) =
     Some (calculateAttributes sadder) \<and>
   map newScore (snd (session [faceTick 1000 smiling, faceTick 1100 sadder])) = [73, 71] \<and>
   map isFinal (snd (session [faceTick 1000 smiling, faceTick 1100 sadder])) = [False, False]"
proof -
  have "initialAnimatedScoreRef (fst (session [faceTick 1000 smiling])) = Some 73"
    by (simp add: session_def intervalCallback_faceTick initializeScores_def Let_def raw_smiling)
  moreover have "fst (session [faceTick 1000 smiling, faceTick 1100 sadder]) =
      initializeScores (faceTick 1100 sadder) sadder
        (initializeScores (faceTick 1000 smiling) smiling (startFaceDetection mounted))"
    by (simp add: session_def intervalCallback_faceTick)
  moreover have "snd (session [faceTick 1000 smiling, faceTick 1100 sadder]) =
      sendAnimated 0 (initializeScores (faceTick 1000 smiling) smiling (startFaceDetection mounted))
      @ sendAnimated 0 (initializeScores (faceTick 1100 sadder) sadder
          (initializeScores (faceTick 1000 smiling) smiling (startFaceDetection mounted)))"
    by (simp add: session_def intervalCallback_faceTick)
  ultimately show ?thesis
    using component_session [of ts]
    by (simp add: intervalCallback_faceTick sendAnimated_initialized raw_smiling raw_sadder)
       (simp add: initializeScores_def Let_def raw_smiling raw_sadder)
qed

section \<open>The consumer\<close>

text \<open>
  Claim C10, as amended.  When \<^verbatim>\<open>handleScoreUpdate\<close> reads \<^verbatim>\<open>isAnalysisComplete\<close> as
  false and receives a final update without attributes, it marks the analysis complete,
  sets the score, the feedback, the final score and the final feedback to the given values,
  and leaves the current and the final attributes as they were.
\<close>

theorem final_update_without_attributes:
  assumes "\<not> seenComplete"
  shows "handleScoreUpdate seenComplete nScore nFeedback True None st =
           st\<lparr>finalScore := Some nScore, finalFeedback := nFeedback,
              score := Some nScore, feedback := nFeedback, isAnalysisComplete := True\<rparr> \<and>
         isAnalysisComplete (handleScoreUpdate seenComplete nScore nFeedback True None st) \<and>
         score (handleScoreUpdate seenComplete nScore nFeedback True None st) = Some nScore \<and>
         feedback (handleScoreUpdate seenComplete nScore nFeedback True None st) = nFeedback \<and>
         attributes (handleScoreUpdate seenComplete nScore nFeedback True None st) = attributes st \<and>
         finalAttributes (handleScoreUpdate seenComplete nScore nFeedback True None st) =
           finalAttributes st"
  using assms by (simp add: handleScoreUpdate_def)

theorem final_update_without_attributes_witness:
  "\<not> False \<and>
   handleScoreUpdate False 59 (getFeedbackMessage 59) True None runningApp =
     \<lparr>score = Some 59, feedback = ''Middle of the pack. Try adding glasses?'',
      finalScore = Some 59, finalFeedback = ''Middle of the pack. Try adding glasses?'',
      isAnalysisComplete = True,
      attributes = Some \<lparr>charisma = 61, dumbness = 39, single = 32\<rparr>,
      finalAttributes = None\<rparr>"
  using final_update_without_attributes [of False 59 "getFeedbackMessage 59" runningApp]
  by (simp add: runningApp_def getFeedbackMessage_def feedbackMessages_def)

text \<open>
  The claim without the amendment fails where \<^verbatim>\<open>handleScoreUpdate\<close> reads
  \<^verbatim>\<open>isAnalysisComplete\<close> as true: it returns at its first line, and the score stays 59
  although the final update carries 70.
\<close>

theorem final_update_when_complete_counterexample:
  "score (handleScoreUpdate True 70 (getFeedbackMessage 70) True None lockedApp) = Some 59 \<and>
   score (handleScoreUpdate True 70 (getFeedbackMessage 70) True None lockedApp) \<noteq> Some 70 \<and>
   feedback (handleScoreUpdate True 70 (getFeedbackMessage 70) True None lockedApp)
     \<noteq> getFeedbackMessage 70"
  by (simp add: handleScoreUpdate_def lockedApp_def getFeedbackMessage_def feedbackMessages_def)

section \<open>The presentation animator\<close>

subsection \<open>The score transition\<close>

text \<open>
  The score effect keeps the handle of the frame it requests and cancels it before it
  requests another, in its cleanup and on a finalized update.  So at most one callback of
  the score transition is pending at any time, a new score starts a fresh transition from
  the value then displayed, and after a finalized update no frame changes the displayed
  score.
\<close>

lemma isAnimate_simps [simp]:
  "isAnimate (h, Animate a)" "\<not> isAnimate (h, AnimateAttributes b)"
  by (simp_all add: isAnimate_def)

lemma scoreFrameOwned_empty: "scoreFrames d = [] \<Longrightarrow> scoreFrameOwned d"
  by (simp add: scoreFrameOwned_def)

lemma scoreFrames_cancel:
  assumes "scoreFrameOwned d" and "animationFrameRef d = Some h"
  shows "scoreFrames (cancelAnimationFrame h d) = []"
proof -
  have "scoreFrames (cancelAnimationFrame h d) = filter (\<lambda>k. k \<noteq> h) (scoreFrames d)"
    by (simp add: scoreFrames_def cancelAnimationFrame_def filter_map comp_def conj_commute)
  moreover have "\<forall>k \<in> set (scoreFrames d). k = h"
    using assms by (auto simp: scoreFrameOwned_def list_all_iff)
  ultimately show ?thesis
    by (simp add: filter_empty_conv)
qed

lemma scoreFrames_no_ref:
  assumes "scoreFrameOwned d" and "animationFrameRef d = None"
  shows "scoreFrames d = []"
  using assms by (cases "scoreFrames d") (simp_all add: scoreFrameOwned_def)

lemma animateAttributes_keeps [simp]:
  "scoreFrames (animateAttributes a ts d) = scoreFrames d"
  "animationFrameRef (animateAttributes a ts d) = animationFrameRef d"
  "displayScore (animateAttributes a ts d) = displayScore d"
  by (simp_all add: animateAttributes_def Let_def scoreFrames_def requestAnimationFrame_def)

lemma scoreFrameOwned_animate:
  assumes "scoreFrames d = []"
  shows "scoreFrameOwned (animate a ts d)"
  using assms
  by (simp add: animate_def Let_def scoreFrames_def scoreFrameOwned_def requestAnimationFrame_def)

lemma runCallbacks_attributes_only:
  assumes "filter isAnimate cbs = []"
  shows "scoreFrames (runCallbacks cbs ts d) = scoreFrames d \<and>
         animationFrameRef (runCallbacks cbs ts d) = animationFrameRef d \<and>
         displayScore (runCallbacks cbs ts d) = displayScore d"
  using assms
proof (induction cbs ts d rule: runCallbacks.induct)
  case (1 timestamp d)
  then show ?case by simp
next
  case (2 h a cbs timestamp d)
  then show ?case by simp
next
  case (3 h a cbs timestamp d)
  then show ?case by simp
qed

lemma runCallbacks_owned:
  assumes "length (filter isAnimate cbs) \<le> 1" and "scoreFrames d = []"
  shows "scoreFrameOwned (runCallbacks cbs ts d)"
  using assms
proof (induction cbs ts d rule: runCallbacks.induct)
  case (1 timestamp d)
  then show ?case by (simp add: scoreFrameOwned_empty)
next
  case (2 h a cbs timestamp d)
  from 2(2) have rest: "filter isAnimate cbs = []"
    by simp
  have "scoreFrameOwned (animate a timestamp d)"
    using 2(3) by (rule scoreFrameOwned_animate)
  then show ?case
    using runCallbacks_attributes_only [OF rest, of timestamp "animate a timestamp d"]
    by (simp add: scoreFrameOwned_def)
next
  case (3 h a cbs timestamp d)
  then show ?case by simp
qed

lemma scoreFrameOwned_animationFrame:
  assumes "scoreFrameOwned d"
  shows "scoreFrameOwned (animationFrame ts d)"
proof -
  have "length (filter isAnimate (frameQueue d)) \<le> 1"
    using assms by (simp add: scoreFrameOwned_def scoreFrames_def)
  moreover have "scoreFrames (d\<lparr>frameQueue := []\<rparr>) = []"
    by (simp add: scoreFrames_def)
  ultimately show ?thesis
    unfolding animationFrame_def by (rule runCallbacks_owned)
qed

lemma scoreFrameOwned_cleanup:
  assumes "scoreFrameOwned d"
  shows "scoreFrameOwned (scoreEffectCleanup d)"
proof (cases "animationFrameRef d")
  case None
  then show ?thesis using assms by (simp add: scoreEffectCleanup_def)
next
  case (Some h)
  have "scoreFrames (cancelAnimationFrame h d) = []"
    using assms Some by (rule scoreFrames_cancel)
  then show ?thesis
    by (simp add: scoreEffectCleanup_def Some scoreFrameOwned_empty)
qed

lemma scoreFrames_cancelled:
  assumes "scoreFrameOwned d"
  shows "scoreFrames (case animationFrameRef d of
           Some h \<Rightarrow> cancelAnimationFrame h d | None \<Rightarrow> d) = []"
proof (cases "animationFrameRef d")
  case None
  then show ?thesis using scoreFrames_no_ref [OF assms None] by simp
next
  case (Some h)
  then show ?thesis using scoreFrames_cancel [OF assms Some] by simp
qed

lemma scoreEffect_finalized:
  assumes "scoreFrameOwned d" and "prop_score p = Some sc" and "prop_isFinalized p"
  shows "scoreFrames (scoreEffect p d) = [] \<and> displayScore (scoreEffect p d) = sc"
proof (cases "animationFrameRef d")
  case None
  then show ?thesis
    using assms scoreFrames_no_ref [OF assms(1) None]
    by (simp add: scoreEffect_def Let_def scoreFrames_def)
next
  case (Some h)
  have "scoreFrames (cancelAnimationFrame h d) = []"
    using assms(1) Some by (rule scoreFrames_cancel)
  then show ?thesis
    using assms(2,3) Some
    by (simp add: scoreEffect_def Let_def scoreFrames_def cancelAnimationFrame_def)
qed

lemma scoreFrameOwned_scoreEffect:
  assumes "scoreFrameOwned d"
  shows "scoreFrameOwned (scoreEffect p d)"
proof (cases "prop_score p")
  case None
  then show ?thesis
    using assms by (simp add: scoreEffect_def scoreFrameOwned_def scoreFrames_def)
next
  case (Some sc)
  show ?thesis
  proof (cases "prop_isFinalized p")
    case True
    then show ?thesis
      using scoreEffect_finalized [OF assms Some True] by (simp add: scoreFrameOwned_empty)
  next
    case False
    obtain d1 where d1: "d1 = (case animationFrameRef d of
        Some h \<Rightarrow> cancelAnimationFrame h d | None \<Rightarrow> d)"
      by simp
    have "scoreFrames d1 = []"
      unfolding d1 using assms by (rule scoreFrames_cancelled)
    then have "scoreFrameOwned
        ((snd (requestAnimationFrame (Animate a) d1))
           \<lparr>animationFrameRef := Some (fst (requestAnimationFrame (Animate a) d1)),
            scoreCleanup := True\<rparr>)" for a
      by (simp add: scoreFrameOwned_def scoreFrames_def requestAnimationFrame_def)
    then show ?thesis
      using Some False by (simp add: scoreEffect_def Let_def split_beta d1)
  qed
qed

lemma attributesEffect_keeps [simp]:
  "scoreFrames (attributesEffect p d) = scoreFrames d"
  "animationFrameRef (attributesEffect p d) = animationFrameRef d"
  "displayScore (attributesEffect p d) = displayScore d"
  by (simp_all add: attributesEffect_def Let_def scoreFrames_def requestAnimationFrame_def
      split: option.splits prod.splits)

lemma scoreFrameOwned_attributesEffect:
  "scoreFrameOwned d \<Longrightarrow> scoreFrameOwned (attributesEffect p d)"
  by (simp add: scoreFrameOwned_def)

lemma scoreFrames_committed [simp]: "scoreFrames (d\<lparr>committed := p\<rparr>) = scoreFrames d"
  by (simp add: scoreFrames_def)

lemma scoreFrameOwned_committed [simp]:
  "scoreFrameOwned (d\<lparr>committed := p\<rparr>) = scoreFrameOwned d"
  by (simp add: scoreFrameOwned_def)

lemma scoreFrameOwned_commit:
  assumes "scoreFrameOwned d"
  shows "scoreFrameOwned (commit p d)"
  using assms
  by (simp add: commit_def Let_def scoreFrameOwned_cleanup scoreFrameOwned_scoreEffect
      scoreFrameOwned_attributesEffect)

lemma scoreFrameOwned_runDisplay:
  assumes "scoreFrameOwned d"
  shows "scoreFrameOwned (runDisplay d es)"
  using assms
proof (induction d es rule: runDisplay.induct)
  case (1 d)
  then show ?case by simp
next
  case (2 d p es)
  then show ?case by (simp add: scoreFrameOwned_commit)
next
  case (3 d timestamp es)
  then show ?case by (simp add: scoreFrameOwned_animationFrame)
qed

lemma scoreFrameOwned_displayMounted: "scoreFrameOwned displayMounted"
  by (simp add: scoreFrameOwned_def scoreFrames_def displayMounted_def)

lemma commit_finalized:
  assumes "scoreFrameOwned d" and "prop_score p = Some sc" and "prop_isFinalized p"
    and "\<not> prop_isFinalized (committed d)"
  shows "scoreFrames (commit p d) = [] \<and> displayScore (commit p d) = sc"
proof -
  define d1 where "d1 = (if scoreCleanup d then scoreEffectCleanup d else d)"
  have "scoreFrameOwned d1"
    using assms(1) by (simp add: d1_def scoreFrameOwned_cleanup)
  then have effect: "scoreFrames (scoreEffect p d1) = [] \<and> displayScore (scoreEffect p d1) = sc"
    using assms(2,3) by (rule scoreEffect_finalized)
  have "commit p d = (attributesEffect p (scoreEffect p d1))\<lparr>committed := p\<rparr>"
    using assms(3,4) by (simp add: commit_def Let_def d1_def)
  with effect show ?thesis
    by simp
qed

lemma frames_keep_score:
  assumes "scoreFrames d = []"
  shows "displayScore (runDisplay d (map Frame tss)) = displayScore d"
  using assms
proof (induction tss arbitrary: d)
  case Nil
  then show ?case by simp
next
  case (Cons ts tss)
  have none: "filter isAnimate (frameQueue d) = []"
    using Cons.prems by (simp add: scoreFrames_def)
  have step: "scoreFrames (animationFrame ts d) = [] \<and>
              displayScore (animationFrame ts d) = displayScore d"
    using runCallbacks_attributes_only [OF none, of ts "d\<lparr>frameQueue := []\<rparr>"]
    by (simp add: animationFrame_def scoreFrames_def)
  then show ?case
    using Cons.IH [of "animationFrame ts d"] by simp
qed

lemma runDisplay_append: "runDisplay d (xs @ ys) = runDisplay (runDisplay d xs) ys"
  by (induction d xs rule: runDisplay.induct) simp_all

lemma finalized_score_survives_frames:
  assumes "prop_score p = Some sc" and "prop_isFinalized p"
    and "\<not> prop_isFinalized (committed (runDisplay displayMounted es))"
  shows "displayScore (runDisplay displayMounted (es @ Props p # map Frame tss)) = sc"
proof -
  have owned: "scoreFrameOwned (runDisplay displayMounted es)"
    using scoreFrameOwned_displayMounted by (rule scoreFrameOwned_runDisplay)
  from commit_finalized [OF owned assms] frames_keep_score
  show ?thesis
    by (simp add: runDisplay_append)
qed


lemma scoreFrames_Nil_filter: "scoreFrames d = [] \<Longrightarrow> filter isAnimate (frameQueue d) = []"
  by (simp add: scoreFrames_def)

lemma nextHandle_cancelled [simp]:
  "nextHandle (case animationFrameRef d of Some h \<Rightarrow> cancelAnimationFrame h d | None \<Rightarrow> d)
     = nextHandle d"
  "currentScoreRef (case animationFrameRef d of Some h \<Rightarrow> cancelAnimationFrame h d | None \<Rightarrow> d)
     = currentScoreRef d"
  by (simp_all add: cancelAnimationFrame_def split: option.splits)

lemma scoreEffect_restarts:
  assumes "scoreFrameOwned d" and "prop_score p = Some sc" and "\<not> prop_isFinalized p"
  shows "filter isAnimate (frameQueue (scoreEffect p d)) =
           [(nextHandle d,
             Animate \<lparr>score_startTime = None, startValue = currentScoreRef d, targetScore = sc\<rparr>)] \<and>
         animationFrameRef (scoreEffect p d) = Some (nextHandle d) \<and>
         displayScore (scoreEffect p d) = displayScore d"
proof -
  define d1 where "d1 = (case animationFrameRef d of
      Some h \<Rightarrow> cancelAnimationFrame h d | None \<Rightarrow> d)"
  have "scoreFrames d1 = []"
    unfolding d1_def using assms(1) by (rule scoreFrames_cancelled)
  then have none: "filter isAnimate (frameQueue d1) = []"
    by (rule scoreFrames_Nil_filter)
  have same: "nextHandle d1 = nextHandle d" "currentScoreRef d1 = currentScoreRef d"
    "displayScore d1 = displayScore d"
    by (simp_all add: d1_def cancelAnimationFrame_def split: option.splits)
  show ?thesis
    using assms(2,3) none same
    by (simp add: scoreEffect_def Let_def split_beta requestAnimationFrame_def d1_def [symmetric])
qed

lemma ref_follows_display:
  "currentScoreRef d = displayScore d \<Longrightarrow>
     currentScoreRef (runDisplay d es) = displayScore (runDisplay d es)"
proof (induction d es rule: runDisplay.induct)
  case (1 d)
  then show ?case by simp
next
  case (2 d p es)
  have "currentScoreRef (commit p d) = displayScore (commit p d)"
    using 2(2)
    by (simp add: commit_def Let_def scoreEffect_def scoreEffectCleanup_def attributesEffect_def
        cancelAnimationFrame_def requestAnimationFrame_def split: option.splits prod.splits)
  then show ?case using 2(1) by simp
next
  case (3 d timestamp es)
  have run: "currentScoreRef d' = displayScore d' \<Longrightarrow>
      currentScoreRef (runCallbacks cbs ts d') = displayScore (runCallbacks cbs ts d')" for cbs ts d'
    by (induction cbs ts d' rule: runCallbacks.induct)
       (simp_all add: animate_def animateAttributes_def Let_def requestAnimationFrame_def split_beta)
  have "currentScoreRef (animationFrame timestamp d) = displayScore (animationFrame timestamp d)"
    unfolding animationFrame_def using 3(2) by (intro run) simp
  then show ?case using 3(1) by simp
qed

lemma attributesEffect_score_frames [simp]:
  "filter isAnimate (frameQueue (attributesEffect p d)) = filter isAnimate (frameQueue d)"
  by (simp add: attributesEffect_def Let_def requestAnimationFrame_def
      split: option.splits prod.splits)

lemma scoreEffectCleanup_keeps [simp]:
  "nextHandle (scoreEffectCleanup d) = nextHandle d"
  "currentScoreRef (scoreEffectCleanup d) = currentScoreRef d"
  "displayScore (scoreEffectCleanup d) = displayScore d"
  by (simp_all add: scoreEffectCleanup_def cancelAnimationFrame_def split: option.splits)

lemma commit_restarts_score_transition:
  assumes "scoreFrameOwned d" and "prop_score p = Some sc" and "\<not> prop_isFinalized p"
    and "prop_score (committed d) \<noteq> Some sc"
  shows "filter isAnimate (frameQueue (commit p d)) =
           [(nextHandle d,
             Animate \<lparr>score_startTime = None, startValue = currentScoreRef d, targetScore = sc\<rparr>)] \<and>
         displayScore (commit p d) = displayScore d"
proof -
  define d1 where "d1 = (if scoreCleanup d then scoreEffectCleanup d else d)"
  have owned: "scoreFrameOwned d1"
    using assms(1) by (simp add: d1_def scoreFrameOwned_cleanup)
  have same: "nextHandle d1 = nextHandle d" "currentScoreRef d1 = currentScoreRef d"
    "displayScore d1 = displayScore d"
    by (simp_all add: d1_def)
  have "commit p d =
      (if (prop_attributes p, prop_isFinalized p)
            \<noteq> (prop_attributes (committed d), prop_isFinalized (committed d))
       then attributesEffect p (scoreEffect p d1) else scoreEffect p d1)\<lparr>committed := p\<rparr>"
    using assms(2,4) by (simp add: commit_def Let_def d1_def)
  then show ?thesis
    using scoreEffect_restarts [OF owned assms(2,3)] same
    by simp
qed

text \<open>
  Claim C7, on a display that receives a non-final update (score 50, attributes 60, 40,
  30), sees one animation frame, receives the final update (score 52, attributes 62, 38,
  33) and then sees two more frames.  The final update sets the displayed score to 52 and
  the displayed attributes to 62, 38, 33, it cancels the score transition, and the pending
  callbacks that remain are the attribute transition's alone.  The two later frames leave
  the displayed score at 52; the attribute transition runs on and the displayed attributes
  end at 60, 40, 30, the values of the update before the final one.  What the score effect
  does for every history of the display (lemmas \<open>commit_restarts_score_transition\<close> and
  \<open>finalized_score_survives_frames\<close>) the attributes effect does not do.
\<close>

theorem stale_attribute_frame_overwrites_final:
  "displayScore (runDisplay displayMounted untilFinal) = 52 \<and>
   displayAttributes (runDisplay displayMounted untilFinal) = lockedAttributes \<and>
   map snd (frameQueue (runDisplay displayMounted untilFinal)) =
     [AnimateAttributes \<lparr>attributes_startTime = Some 1000,
        startValues = \<lparr>charisma = 0, dumbness = 0, single = 0\<rparr>, targetValues = lastAnimated\<rparr>] \<and>
   prop_isFinalized (committed (runDisplay displayMounted (untilFinal @ framesAfterFinal))) \<and>
   displayScore (runDisplay displayMounted (untilFinal @ framesAfterFinal)) = 52 \<and>
   displayAttributes (runDisplay displayMounted (untilFinal @ framesAfterFinal)) = lastAnimated \<and>
   lastAnimated \<noteq> lockedAttributes"
  by (simp add: untilFinal_def framesAfterFinal_def displayMounted_def commit_def scoreEffect_def
      attributesEffect_def scoreEffectCleanup_def requestAnimationFrame_def cancelAnimationFrame_def
      animationFrame_def animate_def animateAttributes_def easeOutQuad_def DURATION_def
      Math_round_def lastAnimated_def lockedAttributes_def Let_def)

end
